theory Spec2Isabelle
  imports Complex_Main "HOL-Library.Sublist"
begin

section \<open>Tensors, storage and the numeric library\<close>

text \<open>
  The program is \<^verbatim>\<open>composer/algorithms/factorize/factorize_core.py\<close>. It is Python over
  torch tensors. A torch tensor is a handle on a storage buffer: \<^verbatim>\<open>detach\<close>, \<^verbatim>\<open>.T\<close>,
  \<^verbatim>\<open>transpose\<close>, slicing and (when the library chooses so) \<^verbatim>\<open>reshape\<close> return handles on the
  same buffer, and the in-place operators \<^verbatim>\<open>*=\<close> and \<^verbatim>\<open>+=\<close> write through the handle. The
  model keeps that structure: a store is the list of all buffers allocated so far (the address
  of a buffer is its position), a tensor is an address, a shape and the list of the buffer
  offsets of its elements in row-major order.

  The exceptions the code can raise are values of \<open>error\<close>; the specification calls
  \<open>IndexError\<close> ShapeMismatch, \<open>NotImplementedError\<close> UnsupportedConfiguration and the
  \<open>RuntimeError\<close> of \<^verbatim>\<open>factorize_conv2d\<close> InconsistentArguments.
\<close>

datatype error = IndexError | RuntimeError | NotImplementedError | ValueError | TypeError

type_synonym addr = nat

type_synonym 'a store = "'a list list"

record tensor =
  base :: addr
  shape :: "nat list"
  offs :: "nat list"

text \<open>The value of a tensor: its shape and its elements in row-major order.\<close>

record 'a tval =
  dims :: "nat list"
  elems :: "'a list"

text \<open>Python numbers as \<^verbatim>\<open>rank\<close> receives them (\<^verbatim>\<open>Union[int, float]\<close>).\<close>

datatype pynum = PyInt int | PyFloat real

text \<open>An argument that is an int or a tuple of ints (\<^verbatim>\<open>stride\<close>, \<^verbatim>\<open>dilation\<close>, \<^verbatim>\<open>padding\<close>).\<close>

datatype intarg = Single int | Tuple "int list"

text \<open>
  What torch and Python arithmetic compute is not code of this repository: it is a parameter
  of the model, a record of functions on tensor values that may fail. The element type \<open>'a\<close>
  is the floating-point type of the tensors. \<open>reshape_shares\<close> is the library's choice between
  a view and a copy in \<^verbatim>\<open>reshape\<close>; \<open>float_mul\<close> is Python's product of a float and an int.
\<close>

record 'a numlib =
  matmul :: "'a tval \<Rightarrow> 'a tval \<Rightarrow> error + 'a tval"
  t_add :: "'a tval \<Rightarrow> 'a tval \<Rightarrow> error + 'a tval"
  t_sub :: "'a tval \<Rightarrow> 'a tval \<Rightarrow> error + 'a tval"
  t_mul :: "'a tval \<Rightarrow> 'a tval \<Rightarrow> error + 'a tval"
  t_div :: "'a tval \<Rightarrow> 'a tval \<Rightarrow> error + 'a tval"
  t_mean :: "'a tval \<Rightarrow> error + 'a tval"
  t_mean0 :: "'a tval \<Rightarrow> error + 'a tval"
  t_var :: "'a tval \<Rightarrow> error + 'a tval"
  t_sqrt :: "'a tval \<Rightarrow> error + 'a tval"
  linalg_lstsq :: "'a tval \<Rightarrow> 'a tval \<Rightarrow> error + 'a tval"
  linalg_svd :: "'a tval \<Rightarrow> error + ('a tval \<times> 'a tval \<times> 'a tval)"
  F_pad :: "'a tval \<Rightarrow> intarg \<Rightarrow> string \<Rightarrow> error + 'a tval"
  F_unfold :: "'a tval \<Rightarrow> nat list \<Rightarrow> intarg \<Rightarrow> error + 'a tval"
  reshape_shares :: "tensor \<Rightarrow> nat list \<Rightarrow> bool"
  float_mul :: "real \<Rightarrow> nat \<Rightarrow> real"

subsection \<open>Computations on the store\<close>

text \<open>
  A computation takes the store and returns an error or a result, and the store it leaves.
  The store is returned with an error too, so that what was allocated before a failure can
  be observed.
\<close>

type_synonym ('a, 'r) run = "'a store \<Rightarrow> (error + 'r) \<times> 'a store"

definition returnM :: "'r \<Rightarrow> ('a, 'r) run" where
  "returnM x = (\<lambda>h. (Inr x, h))"

definition raiseM :: "error \<Rightarrow> ('a, 'r) run" where
  "raiseM e = (\<lambda>h. (Inl e, h))"

definition bindM :: "('a, 'r) run \<Rightarrow> ('r \<Rightarrow> ('a, 's) run) \<Rightarrow> ('a, 's) run" where
  "bindM m f = (\<lambda>h. case m h of (Inl e, h') \<Rightarrow> (Inl e, h') | (Inr x, h') \<Rightarrow> f x h')"

definition liftE :: "error + 'r \<Rightarrow> ('a, 'r) run" where
  "liftE r = (case r of Inl e \<Rightarrow> raiseM e | Inr x \<Rightarrow> returnM x)"

definition get_val :: "'a store \<Rightarrow> tensor \<Rightarrow> 'a tval" where
  "get_val h t = \<lparr>dims = shape t, elems = map (\<lambda>i. h ! base t ! i) (offs t)\<rparr>"

text \<open>A new tensor: a fresh contiguous buffer at the end of the store.\<close>

definition alloc :: "'a tval \<Rightarrow> ('a, tensor) run" where
  "alloc v = (\<lambda>h. (Inr \<lparr>base = length h, shape = dims v, offs = [0..<length (elems v)]\<rparr>,
                    h @ [elems v]))"

text \<open>Writing the elements \<open>xs\<close> through the handle \<open>t\<close>.\<close>

definition put_elems :: "tensor \<Rightarrow> 'a list \<Rightarrow> 'a store \<Rightarrow> 'a store" where
  "put_elems t xs h =
     h[base t := fold (\<lambda>(i, x) buf. buf[i := x]) (zip (offs t) xs) (h ! base t)]"

text \<open>An operator of the library on one or two tensors, its result in a new buffer.\<close>

definition lift1 :: "('a tval \<Rightarrow> error + 'a tval) \<Rightarrow> tensor \<Rightarrow> ('a, tensor) run" where
  "lift1 f t = (\<lambda>h. case f (get_val h t) of Inl e \<Rightarrow> (Inl e, h) | Inr v \<Rightarrow> alloc v h)"

definition lift2 ::
  "('a tval \<Rightarrow> 'a tval \<Rightarrow> error + 'a tval) \<Rightarrow> tensor \<Rightarrow> tensor \<Rightarrow> ('a, tensor) run" where
  "lift2 f t u =
     (\<lambda>h. case f (get_val h t) (get_val h u) of Inl e \<Rightarrow> (Inl e, h) | Inr v \<Rightarrow> alloc v h)"

text \<open>
  An in-place operator \<^verbatim>\<open>t op= u\<close>: torch refuses it when the broadcast result has not the
  shape of \<open>t\<close>; otherwise the result is written through \<open>t\<close>, and \<open>t\<close> is the value of the
  expression.
\<close>

definition inplace2 ::
  "('a tval \<Rightarrow> 'a tval \<Rightarrow> error + 'a tval) \<Rightarrow> tensor \<Rightarrow> tensor \<Rightarrow> ('a, tensor) run" where
  "inplace2 f t u =
     (\<lambda>h. case f (get_val h t) (get_val h u) of
             Inl e \<Rightarrow> (Inl e, h)
           | Inr v \<Rightarrow> if dims v \<noteq> shape t then (Inl RuntimeError, h)
                      else (Inr t, put_elems t (elems v) h))"

subsection \<open>Shapes and views\<close>

text \<open>\<^verbatim>\<open>t.shape[i]\<close>: indexing the shape tuple out of range raises IndexError.\<close>

definition shape_at :: "tensor \<Rightarrow> nat \<Rightarrow> ('a, nat) run" where
  "shape_at t i = (if i < length (shape t) then returnM (shape t ! i) else raiseM IndexError)"

text \<open>\<^verbatim>\<open>detach\<close> returns a tensor on the same storage.\<close>

definition detach :: "tensor \<Rightarrow> tensor" where
  "detach t = t"

text \<open>Row-major multi-indices.\<close>

fun unravel :: "nat list \<Rightarrow> nat \<Rightarrow> nat list" where
  "unravel [] n = []"
| "unravel (d # ds) n = n div prod_list ds # unravel ds (n mod prod_list ds)"

fun ravel :: "nat list \<Rightarrow> nat list \<Rightarrow> nat" where
  "ravel (d # ds) (i # js) = i * prod_list ds + ravel ds js"
| "ravel _ _ = 0"

text \<open>\<^verbatim>\<open>t.T\<close>: the view with the dimensions reversed.\<close>

definition T_view :: "tensor \<Rightarrow> tensor" where
  "T_view t =
     t\<lparr>shape := rev (shape t),
       offs := map (\<lambda>n. offs t ! ravel (shape t) (rev (unravel (rev (shape t)) n)))
                 [0..<length (offs t)]\<rparr>"

fun swap12 :: "'b list \<Rightarrow> 'b list" where
  "swap12 (a # b # c # r) = a # c # b # r"
| "swap12 xs = xs"

text \<open>\<^verbatim>\<open>t.transpose(1, 2)\<close>: a view; a dimension out of range raises IndexError.\<close>

definition transpose12 :: "tensor \<Rightarrow> ('a, tensor) run" where
  "transpose12 t =
     (if length (shape t) < 3 then raiseM IndexError
      else returnM
        (t\<lparr>shape := swap12 (shape t),
           offs := map (\<lambda>n. offs t ! ravel (shape t) (swap12 (unravel (swap12 (shape t)) n)))
                     [0..<length (offs t)]\<rparr>))"

text \<open>
  The stop of a Python slice \<^verbatim>\<open>:k\<close> on a dimension of size \<open>n\<close>: a negative stop counts from
  the end, and a float is refused.
\<close>

definition slice_stop :: "pynum \<Rightarrow> nat \<Rightarrow> error + nat" where
  "slice_stop k n =
     (case k of
        PyFloat f \<Rightarrow> Inl TypeError
      | PyInt i \<Rightarrow> Inr (if 0 \<le> i then min (nat i) n else nat (int n + i)))"

text \<open>\<^verbatim>\<open>t[:k]\<close>: the view on the first rows.\<close>

definition slice_rows :: "tensor \<Rightarrow> pynum \<Rightarrow> ('a, tensor) run" where
  "slice_rows t k =
     (case shape t of
        [] \<Rightarrow> raiseM IndexError
      | d # ds \<Rightarrow>
          (case slice_stop k d of
             Inl e \<Rightarrow> raiseM e
           | Inr k' \<Rightarrow> returnM (t\<lparr>shape := k' # ds, offs := take (k' * prod_list ds) (offs t)\<rparr>)))"

text \<open>\<^verbatim>\<open>t[:, :k]\<close>: the view on the first columns.\<close>

definition slice_cols :: "tensor \<Rightarrow> pynum \<Rightarrow> ('a, tensor) run" where
  "slice_cols t k =
     (case shape t of
        d0 # d1 # ds \<Rightarrow>
          (case slice_stop k d1 of
             Inl e \<Rightarrow> raiseM e
           | Inr k' \<Rightarrow>
               returnM
                 (t\<lparr>shape := d0 # k' # ds,
                    offs := concat (map (\<lambda>i. take (k' * prod_list ds)
                                               (drop (i * (d1 * prod_list ds)) (offs t)))
                                     [0..<d0])\<rparr>))
      | _ \<Rightarrow> raiseM IndexError)"

text \<open>
  The shape that \<^verbatim>\<open>reshape\<close> infers; \<open>None\<close> is the dimension written \<^verbatim>\<open>-1\<close>. torch infers it
  only when the product of the other dimensions is positive and divides the number of
  elements.
\<close>

definition infer_size :: "nat option list \<Rightarrow> nat \<Rightarrow> error + nat list" where
  "infer_size spec numel =
     (let known = prod_list (map (\<lambda>d. case d of None \<Rightarrow> 1 | Some n \<Rightarrow> n) spec);
          holes = length (filter (\<lambda>d. d = None) spec)
      in if 1 < holes then Inl RuntimeError
         else if holes = 1 then
           (if 0 < known \<and> numel mod known = 0
            then Inr (map (\<lambda>d. case d of None \<Rightarrow> numel div known | Some n \<Rightarrow> n) spec)
            else Inl RuntimeError)
         else if numel = known then Inr (map the spec)
         else Inl RuntimeError)"

text \<open>\<^verbatim>\<open>t.reshape(...)\<close>: a view on the same storage or a copy, as the library chooses.\<close>

definition reshape :: "'a numlib \<Rightarrow> tensor \<Rightarrow> nat option list \<Rightarrow> ('a, tensor) run" where
  "reshape L t spec =
     (case infer_size spec (prod_list (shape t)) of
        Inl e \<Rightarrow> raiseM e
      | Inr sh \<Rightarrow>
          if reshape_shares L t sh then returnM (t\<lparr>shape := sh\<rparr>)
          else (\<lambda>h. alloc \<lparr>dims = sh, elems = elems (get_val h t)\<rparr> h))"


subsection \<open>Python arithmetic on the rank\<close>

definition py_lt1 :: "pynum \<Rightarrow> bool" where
  "py_lt1 r = (case r of PyInt i \<Rightarrow> i < 1 | PyFloat f \<Rightarrow> f < 1)"

text \<open>\<^verbatim>\<open>k >= n\<close> for a dimension \<open>n\<close>.\<close>

definition py_ge :: "pynum \<Rightarrow> nat \<Rightarrow> bool" where
  "py_ge k n = (case k of PyInt i \<Rightarrow> int n \<le> i | PyFloat f \<Rightarrow> real n \<le> f)"

text \<open>\<^verbatim>\<open>rank * n\<close> for a dimension \<open>n\<close>.\<close>

definition py_mul :: "'a numlib \<Rightarrow> pynum \<Rightarrow> nat \<Rightarrow> pynum" where
  "py_mul L r n = (case r of PyInt i \<Rightarrow> PyInt (i * int n) | PyFloat f \<Rightarrow> PyFloat (float_mul L f n))"

text \<open>\<^verbatim>\<open>int(x)\<close> truncates a float towards zero.\<close>

definition py_int :: "pynum \<Rightarrow> int" where
  "py_int r = (case r of PyInt i \<Rightarrow> i | PyFloat f \<Rightarrow> if 0 \<le> f then \<lfloor>f\<rfloor> else \<lceil>f\<rceil>)"

section \<open>The matrix factorization engine\<close>

text \<open>
  \<^verbatim>\<open>LowRankSolution\<close>, the dataclass of results. \<open>nmse\<close> is the Python number \<open>0\<close> by default
  and a tensor of no dimension once it is computed.
\<close>

datatype nmse_val = NmseNum int | NmseTensor tensor

record LowRankSolution =
  Wa :: "tensor option"
  Wb :: "tensor option"
  bias :: "tensor option"
  rank :: pynum
  nmse :: nmse_val

text \<open>\<^verbatim>\<open>_lstsq\<close>: the three checks, in the order of the source, then the library's solver.\<close>

definition lstsq :: "'a numlib \<Rightarrow> tensor \<Rightarrow> tensor \<Rightarrow> ('a, tensor) run" where
  "lstsq L A B =
     bindM (shape_at A 0) (\<lambda>rows_A.
     bindM (shape_at B 0) (\<lambda>rows_B.
     if rows_A \<noteq> rows_B then raiseM IndexError
     else if length (shape A) \<noteq> 2 then raiseM IndexError
     else if length (shape B) \<noteq> 2 then raiseM IndexError
     else lift2 (linalg_lstsq L) A B))"

text \<open>\<^verbatim>\<open>_nmse\<close>.\<close>

definition nmse_of :: "'a numlib \<Rightarrow> tensor \<Rightarrow> tensor \<Rightarrow> ('a, tensor) run" where
  "nmse_of L Y Y_hat =
     bindM (lift2 (t_sub L) Y Y_hat) (\<lambda>diffs.
     bindM (lift2 (t_mul L) diffs diffs) (\<lambda>sq.
     bindM (lift1 (t_mean L) sq) (\<lambda>m.
     bindM (lift1 (t_var L) Y) (\<lambda>v.
     lift2 (t_div L) m v))))"

text \<open>The three results of \<^verbatim>\<open>torch.linalg.svd\<close>, each in a new buffer.\<close>

definition svd :: "'a numlib \<Rightarrow> tensor \<Rightarrow> ('a, tensor \<times> tensor \<times> tensor) run" where
  "svd L W =
     (\<lambda>h. case linalg_svd L (get_val h W) of
             Inl e \<Rightarrow> (Inl e, h)
           | Inr (u, s, vt) \<Rightarrow>
               bindM (alloc u) (\<lambda>U.
               bindM (alloc s) (\<lambda>S.
               bindM (alloc vt) (\<lambda>Vt. returnM (U, S, Vt)))) h)"

text \<open>
  \<^verbatim>\<open>_svd_initialize\<close>. \<open>Wa\<close> and \<open>Wb\<close> are views on the buffers of \<open>U\<close> and \<open>Vt\<close>, and the two
  scalings are in place.
\<close>

definition svd_initialize ::
  "'a numlib \<Rightarrow> tensor \<Rightarrow> tensor option \<Rightarrow> pynum \<Rightarrow> ('a, tensor \<times> tensor) run" where
  "svd_initialize L Wa0 Wb0 k =
     bindM (case Wb0 of None \<Rightarrow> returnM Wa0 | Some wb \<Rightarrow> lift2 (matmul L) Wa0 wb) (\<lambda>W.
     bindM (svd L W) (\<lambda>(U, s, Vt).
     bindM (slice_cols U k) (\<lambda>Wa1.
     bindM (slice_rows Vt k) (\<lambda>Wb1.
     bindM (slice_rows s k) (\<lambda>s_k.
     bindM (lift1 (t_sqrt L) s_k) (\<lambda>s_sqrt.
     bindM (inplace2 (t_mul L) Wa1 s_sqrt) (\<lambda>Wa2.
     bindM (reshape L s_sqrt [None, Some 1]) (\<lambda>s_col.
     bindM (inplace2 (t_mul L) Wb1 s_col) (\<lambda>Wb2.
     returnM (Wa2, Wb2))))))))))"

text \<open>
  Lines 140 to 143 of \<^verbatim>\<open>factorize_matrix\<close>: a rank below one is a fraction of the number of
  columns of \<open>X\<close>, and the result is capped by the number of columns of \<open>Wa\<close>.
\<close>

definition resolve_rank :: "'a numlib \<Rightarrow> pynum \<Rightarrow> tensor \<Rightarrow> tensor \<Rightarrow> ('a, pynum) run" where
  "resolve_rank L rank0 X Wa0 =
     (if py_lt1 rank0 then
        bindM (shape_at X 1) (\<lambda>D.
        bindM (shape_at Wa0 1) (\<lambda>d.
        returnM (PyInt (min (py_int (py_mul L rank0 D)) (int d)))))
      else returnM rank0)"

text \<open>The loop of \<^verbatim>\<open>factorize_matrix\<close>, \<^verbatim>\<open>for _ in range(n_iters)\<close>.\<close>

fun als_loop ::
  "'a numlib \<Rightarrow> tensor \<Rightarrow> tensor \<Rightarrow> tensor \<Rightarrow> nat \<Rightarrow> tensor \<Rightarrow> tensor
     \<Rightarrow> ('a, tensor \<times> tensor) run" where
  "als_loop L X Y Ya 0 Wa1 Wb1 = returnM (Wa1, Wb1)"
| "als_loop L X Y Ya (Suc n) Wa1 Wb1 =
     bindM (lift2 (matmul L) X Wa1) (\<lambda>Xb.
     bindM (lstsq L Xb Y) (\<lambda>Wb2.
     bindM (lstsq L (T_view Wb2) (T_view Ya)) (\<lambda>Wa_T.
     als_loop L X Y Ya n (T_view Wa_T) Wb2)))"

text \<open>
  Lines 197 to 210 of \<^verbatim>\<open>factorize_matrix\<close>, after the loop. \<open>Y\<close> is the target the loop was
  given: the caller's \<open>Y\<close> minus the caller's bias when there is one.
\<close>

definition finish ::
  "'a numlib \<Rightarrow> tensor \<Rightarrow> tensor \<Rightarrow> tensor option \<Rightarrow> pynum \<Rightarrow> tensor \<Rightarrow> tensor
     \<Rightarrow> ('a, LowRankSolution) run" where
  "finish L X Y original_bias k Wa2 Wb2 =
     bindM (lift2 (matmul L) X Wa2) (\<lambda>XWa.
     bindM (lift2 (matmul L) XWa Wb2) (\<lambda>Y_hat.
     bindM (lift2 (t_sub L) Y Y_hat) (\<lambda>resid.
     bindM (lift1 (t_mean0 L) resid) (\<lambda>b.
     bindM (case original_bias of
              None \<Rightarrow> returnM b
            | Some ob \<Rightarrow> inplace2 (t_add L) b ob) (\<lambda>b1.
     bindM (inplace2 (t_add L) Y_hat b1) (\<lambda>Y_hat1.
     bindM (nmse_of L Y Y_hat1) (\<lambda>e.
     returnM \<lparr>Wa = Some Wa2, Wb = Some Wb2, bias = Some b1, rank = k,
              nmse = NmseTensor e\<rparr>)))))))"

text \<open>
  \<^verbatim>\<open>factorize_matrix\<close>. The source fills one result object along the way; each branch here
  returns the object as it is at its \<^verbatim>\<open>return\<close>. The \<^verbatim>\<open>or\<close> of line 156 does not read
  \<^verbatim>\<open>Y.shape[1]\<close> when its first operand holds.
\<close>

definition factorize_matrix ::
  "'a numlib \<Rightarrow> tensor \<Rightarrow> tensor \<Rightarrow> tensor \<Rightarrow> tensor option \<Rightarrow> tensor option \<Rightarrow> pynum
     \<Rightarrow> int \<Rightarrow> ('a, LowRankSolution) run" where
  "factorize_matrix L X0 Y0 Wa0 Wb0 bias0 rank0 n_iters =
     (let X = detach X0; Y = detach Y0; Wa1 = detach Wa0; Wb1 = map_option detach Wb0 in
      bindM (resolve_rank L rank0 X Wa1) (\<lambda>k.
      let original_bias = map_option detach bias0 in
      bindM (case original_bias of
               None \<Rightarrow> returnM Y
             | Some ob \<Rightarrow> lift2 (t_sub L) Y ob) (\<lambda>Y1.
      bindM (shape_at X 1) (\<lambda>D.
      bindM (if py_ge k D then returnM True
             else bindM (shape_at Y1 1) (\<lambda>M. returnM (py_ge k M))) (\<lambda>no_point.
      if no_point then
        bindM (lstsq L X Y1) (\<lambda>W.
        returnM \<lparr>Wa = Some W, Wb = None, bias = original_bias, rank = PyInt (- 1),
                 nmse = NmseNum 0\<rparr>)
      else
        bindM (shape_at Wa1 1) (\<lambda>d.
        if py_ge k d then
          returnM \<lparr>Wa = Some Wa1, Wb = Wb1, bias = original_bias, rank = PyInt (- 1),
                   nmse = NmseNum 0\<rparr>
        else
          bindM (svd_initialize L Wa1 Wb1 k) (\<lambda>(Wa2, Wb2).
          bindM (lstsq L X Y1) (\<lambda>Ya.
          bindM (als_loop L X Y1 Ya (nat n_iters) Wa2 Wb2) (\<lambda>(Wa3, Wb3).
          finish L X Y1 original_bias k Wa3 Wb3)))))))))"

section \<open>The convolution adapter\<close>

text \<open>The keyword arguments of the convolution, with the defaults of the source.\<close>

record conv2d_kwargs =
  padding :: intarg
  padding_mode :: string
  stride :: intarg
  dilation :: intarg
  groups :: int

definition default_kwargs :: conv2d_kwargs where
  "default_kwargs =
     \<lparr>padding = Single 0, padding_mode = ''zeros'', stride = Single 1, dilation = Single 1,
      groups = 1\<rparr>"

text \<open>\<^verbatim>\<open>np.max\<close> of an int or a tuple of ints; numpy refuses the empty tuple.\<close>

definition np_max :: "intarg \<Rightarrow> error + int" where
  "np_max a =
     (case a of
        Single n \<Rightarrow> Inr n
      | Tuple [] \<Rightarrow> Inl ValueError
      | Tuple (x # xs) \<Rightarrow> Inr (fold max xs x))"

text \<open>\<^verbatim>\<open>str.lower\<close> on the letters of ASCII.\<close>

definition lower_char :: "char \<Rightarrow> char" where
  "lower_char c =
     (let n = (of_char c :: nat) in if 65 \<le> n \<and> n \<le> 90 then char_of (n + 32) else c)"

definition lower :: "string \<Rightarrow> string" where
  "lower s = map lower_char s"

text \<open>\<^verbatim>\<open>_activations_conv2d_to_mat\<close>.\<close>

definition activations_conv2d_to_mat ::
  "'a numlib \<Rightarrow> tensor \<Rightarrow> nat list \<Rightarrow> conv2d_kwargs \<Rightarrow> ('a, tensor) run" where
  "activations_conv2d_to_mat L activations kernel_size kw =
     bindM (liftE (np_max (stride kw))) (\<lambda>s.
     if 1 < s then raiseM NotImplementedError
     else
       bindM (liftE (np_max (dilation kw))) (\<lambda>d.
       if 1 < d then raiseM NotImplementedError
       else if groups kw \<noteq> 1 then raiseM NotImplementedError
       else
         bindM (liftE (np_max (padding kw))) (\<lambda>p.
         bindM (if 0 < p \<and> lower (padding_mode kw) \<noteq> ''zeros''
                then bindM (\<lambda>h. (case F_pad L (get_val h activations) (padding kw)
                                         (padding_mode kw) of
                                    Inl e \<Rightarrow> (Inl e, h) | Inr v \<Rightarrow> alloc v h))
                       (\<lambda>a. returnM (a, Single 0))
                else returnM (activations, padding kw)) (\<lambda>(acts, pad).
         bindM (\<lambda>h. (case F_unfold L (get_val h acts) kernel_size pad of
                        Inl e \<Rightarrow> (Inl e, h) | Inr v \<Rightarrow> alloc v h)) (\<lambda>r.
         bindM (transpose12 r) (\<lambda>r1.
         bindM (shape_at r1 2) (\<lambda>fan_in.
         reshape L r1 [None, Some fan_in])))))))"

text \<open>\<^verbatim>\<open>_weights_conv2d_to_mat\<close>.\<close>

definition weights_conv2d_to_mat :: "'a numlib \<Rightarrow> tensor \<Rightarrow> ('a, tensor) run" where
  "weights_conv2d_to_mat L weights =
     bindM (shape_at weights 0) (\<lambda>out_channels.
     bindM (reshape L weights [Some out_channels, None]) (\<lambda>m.
     returnM (T_view m)))"

text \<open>\<^verbatim>\<open>_mat_to_weights_conv2d\<close>.\<close>

definition mat_to_weights_conv2d ::
  "'a numlib \<Rightarrow> tensor option \<Rightarrow> nat list \<Rightarrow> ('a, tensor option) run" where
  "mat_to_weights_conv2d L mat kernel_size =
     (case mat of
        None \<Rightarrow> returnM None
      | Some m \<Rightarrow>
          (let w = T_view m in
           bindM (shape_at w 0) (\<lambda>n.
           bindM (reshape L w (Some n # None # map Some kernel_size)) (\<lambda>r.
           returnM (Some r)))))"

text \<open>\<^verbatim>\<open>factorize_conv2d\<close>.\<close>

definition factorize_conv2d ::
  "'a numlib \<Rightarrow> tensor \<Rightarrow> tensor \<Rightarrow> tensor option \<Rightarrow> pynum \<Rightarrow> tensor option \<Rightarrow> tensor option
     \<Rightarrow> int \<Rightarrow> conv2d_kwargs \<Rightarrow> ('a, LowRankSolution) run" where
  "factorize_conv2d L inputs0 Wa0 Wb0 rank0 biasA biasB n_iters kw =
     (let inputs = detach inputs0; Wa1 = detach Wa0; kernel_size = drop 2 (shape Wa1) in
      bindM (activations_conv2d_to_mat L inputs kernel_size kw) (\<lambda>X_mat.
      bindM (weights_conv2d_to_mat L Wa1) (\<lambda>Wa2.
      bindM (lift2 (matmul L) X_mat Wa2) (\<lambda>Y_mat.
      bindM (case biasA of
               None \<Rightarrow> returnM Y_mat
             | Some a \<Rightarrow> inplace2 (t_add L) Y_mat (detach a)) (\<lambda>Y_mat1.
      bindM (case Wb0 of
               Some wb \<Rightarrow>
                 bindM (weights_conv2d_to_mat L (detach wb)) (\<lambda>Wb1.
                 bindM (lift2 (matmul L) Y_mat1 Wb1) (\<lambda>Y_mat2.
                 bindM (case biasB of
                          None \<Rightarrow> returnM Y_mat2
                        | Some b \<Rightarrow> inplace2 (t_add L) Y_mat2 (detach b)) (\<lambda>Y_mat3.
                 returnM (Y_mat3, Some Wb1))))
             | None \<Rightarrow>
                 (case biasB of
                    Some b \<Rightarrow> raiseM RuntimeError
                  | None \<Rightarrow> returnM (Y_mat1, None))) (\<lambda>(Y_mat4, Wb2).
      bindM (factorize_matrix L X_mat Y_mat4 Wa2 Wb2 None rank0 n_iters) (\<lambda>ret.
      bindM (mat_to_weights_conv2d L (Wa ret) kernel_size) (\<lambda>wa.
      bindM (mat_to_weights_conv2d L (Wb ret) [1, 1]) (\<lambda>wb.
      returnM (ret\<lparr>Wa := wa, Wb := wb\<rparr>))))))))))"


section \<open>An instance of the numeric library for the examples\<close>

text \<open>
  The theorems below hold for every library. The examples need one: this instance is over
  the reals, with exact arithmetic, and it answers only where the answer is plain. The
  elementwise operators broadcast as torch does; the matrix product is that of two matrices;
  the least-squares solver answers when one of its operands is zero (the solution of least
  norm is then zero), the singular value decomposition when the matrix is diagonal with a
  non-negative, non-increasing diagonal (then \<open>U\<close> and \<open>Vt\<close> are the identity), the
  square root on zeros and ones (which are their own roots), and \<^verbatim>\<open>unfold\<close> for a kernel of
  size one without padding. \<^verbatim>\<open>reshape\<close> shares the storage of
  a contiguous tensor and copies any other.
\<close>

fun bshape_rev :: "nat list \<Rightarrow> nat list \<Rightarrow> nat list option" where
  "bshape_rev [] ys = Some ys"
| "bshape_rev xs [] = Some xs"
| "bshape_rev (x # xs) (y # ys) =
     (if x = y \<or> y = 1 then map_option ((#) x) (bshape_rev xs ys)
      else if x = 1 then map_option ((#) y) (bshape_rev xs ys)
      else None)"

definition bshape :: "nat list \<Rightarrow> nat list \<Rightarrow> nat list option" where
  "bshape a b = map_option rev (bshape_rev (rev a) (rev b))"

definition bsrc :: "nat list \<Rightarrow> nat list \<Rightarrow> nat" where
  "bsrc sh ix =
     ravel sh (map2 (\<lambda>d i. if d = 1 then 0 else i) sh (drop (length ix - length sh) ix))"

definition ew :: "(real \<Rightarrow> real \<Rightarrow> real) \<Rightarrow> real tval \<Rightarrow> real tval \<Rightarrow> error + real tval" where
  "ew f a b =
     (case bshape (dims a) (dims b) of
        None \<Rightarrow> Inl RuntimeError
      | Some sh \<Rightarrow>
          Inr \<lparr>dims = sh,
               elems = map (\<lambda>n. f (elems a ! bsrc (dims a) (unravel sh n))
                                  (elems b ! bsrc (dims b) (unravel sh n)))
                         [0..<prod_list sh]\<rparr>)"

definition mm :: "real tval \<Rightarrow> real tval \<Rightarrow> error + real tval" where
  "mm a b =
     (if length (dims a) = 2 \<and> length (dims b) = 2 \<and> dims a ! 1 = dims b ! 0 then
        (let n = dims a ! 0; d = dims a ! 1; m = dims b ! 1 in
         Inr \<lparr>dims = [n, m],
              elems = map (\<lambda>p. sum_list (map (\<lambda>j. elems a ! (p div m * d + j) *
                                                   elems b ! (j * m + p mod m)) [0..<d]))
                        [0..<n * m]\<rparr>)
      else Inl RuntimeError)"

definition mean_all :: "real tval \<Rightarrow> error + real tval" where
  "mean_all a = Inr \<lparr>dims = [], elems = [sum_list (elems a) / real (length (elems a))]\<rparr>"

definition mean_dim0 :: "real tval \<Rightarrow> error + real tval" where
  "mean_dim0 a =
     (case dims a of
        [] \<Rightarrow> Inl IndexError
      | d # ds \<Rightarrow>
          Inr \<lparr>dims = ds,
               elems = map (\<lambda>j. sum_list (map (\<lambda>i. elems a ! (i * prod_list ds + j)) [0..<d])
                                  / real d)
                         [0..<prod_list ds]\<rparr>)"

definition var_all :: "real tval \<Rightarrow> error + real tval" where
  "var_all a =
     (let m = sum_list (elems a) / real (length (elems a)) in
      Inr \<lparr>dims = [],
           elems = [sum_list (map (\<lambda>x. (x - m) * (x - m)) (elems a))
                      / real (length (elems a) - 1)]\<rparr>)"

definition sqrt_all :: "real tval \<Rightarrow> error + real tval" where
  "sqrt_all a = (if list_all (\<lambda>x. x = 0 \<or> x = 1) (elems a) then Inr a else Inl RuntimeError)"

definition lstsq_zero :: "real tval \<Rightarrow> real tval \<Rightarrow> error + real tval" where
  "lstsq_zero a b =
     (if length (dims a) = 2 \<and> length (dims b) = 2 \<and> dims a ! 0 = dims b ! 0
         \<and> (list_all (\<lambda>x. x = 0) (elems a) \<or> list_all (\<lambda>x. x = 0) (elems b))
      then Inr \<lparr>dims = [dims a ! 1, dims b ! 1],
                elems = replicate (dims a ! 1 * dims b ! 1) 0\<rparr>
      else Inl RuntimeError)"

definition eye :: "nat \<Rightarrow> real tval" where
  "eye n = \<lparr>dims = [n, n], elems = map (\<lambda>p. if p div n = p mod n then 1 else 0) [0..<n * n]\<rparr>"

definition svd_diag :: "real tval \<Rightarrow> error + (real tval \<times> real tval \<times> real tval)" where
  "svd_diag w =
     (if length (dims w) = 2 \<and> dims w ! 0 = dims w ! 1 then
        (let n = dims w ! 0; s = map (\<lambda>i. elems w ! (i * n + i)) [0..<n] in
         if list_all (\<lambda>p. p div n = p mod n \<or> elems w ! p = 0) [0..<n * n]
            \<and> list_all (\<lambda>x. 0 \<le> x) s \<and> sorted (rev s)
         then Inr (eye n, \<lparr>dims = [n], elems = s\<rparr>, eye n)
         else Inl RuntimeError)
      else Inl RuntimeError)"

definition unfold_1x1 :: "real tval \<Rightarrow> nat list \<Rightarrow> intarg \<Rightarrow> error + real tval" where
  "unfold_1x1 a ks pad =
     (if length (dims a) = 4 \<and> ks = [1, 1] \<and> pad = Single 0
      then Inr \<lparr>dims = [dims a ! 0, dims a ! 1, dims a ! 2 * dims a ! 3], elems = elems a\<rparr>
      else Inl RuntimeError)"

definition contiguous :: "tensor \<Rightarrow> bool" where
  "contiguous t = (offs t = map (\<lambda>i. hd (offs t) + i) [0..<length (offs t)])"

definition ref_lib :: "real numlib" where
  "ref_lib =
     \<lparr>matmul = mm, t_add = ew (+), t_sub = ew (-), t_mul = ew (*), t_div = ew (/),
      t_mean = mean_all, t_mean0 = mean_dim0, t_var = var_all, t_sqrt = sqrt_all,
      linalg_lstsq = lstsq_zero, linalg_svd = svd_diag,
      F_pad = (\<lambda>a p m. Inl RuntimeError), F_unfold = unfold_1x1,
      reshape_shares = (\<lambda>t sh. contiguous t),
      float_mul = (\<lambda>f n. f * real n)\<rparr>"


section \<open>Notions used in the statements\<close>

text \<open>
  The target of the fit: the value of \<open>Y\<close>, minus the value of the caller's bias when one is
  supplied (line 150), read in the caller's store.
\<close>

definition target_minus_bias ::
  "'a numlib \<Rightarrow> 'a store \<Rightarrow> tensor \<Rightarrow> tensor option \<Rightarrow> error + 'a tval" where
  "target_minus_bias L h Y bias0 =
     (case bias0 of None \<Rightarrow> Inr (get_val h Y) | Some b \<Rightarrow> t_sub L (get_val h Y) (get_val h b))"

text \<open>The tensor that \<open>alloc\<close> returns in the store \<open>h\<close>.\<close>

definition fresh_tensor :: "'a store \<Rightarrow> 'a tval \<Rightarrow> tensor" where
  "fresh_tensor h v = \<lparr>base = length h, shape = dims v, offs = [0..<length (elems v)]\<rparr>"

text \<open>The tensor that holds the target after line 150, and the store at that point.\<close>

definition shifted :: "'a store \<Rightarrow> tensor \<Rightarrow> tensor option \<Rightarrow> 'a tval \<Rightarrow> tensor \<times> 'a store" where
  "shifted h Y bias0 y =
     (case bias0 of None \<Rightarrow> (Y, h) | Some b \<Rightarrow> (fresh_tensor h y, h @ [elems y]))"

text \<open>
  The call gets past the first degenerate case (line 156): the rank resolves, \<open>X\<close> and \<open>Y\<close>
  have a second dimension, and the rank is below both.
\<close>

definition rank_below_both ::
  "'a numlib \<Rightarrow> pynum \<Rightarrow> tensor \<Rightarrow> tensor \<Rightarrow> tensor \<Rightarrow> 'a store \<Rightarrow> bool" where
  "rank_below_both L rank0 X Y Wa0 h =
     (case fst (resolve_rank L rank0 X Wa0 h) of
        Inl e \<Rightarrow> False
      | Inr k \<Rightarrow> 1 < length (shape X) \<and> 1 < length (shape Y)
                 \<and> \<not> py_ge k (shape X ! 1) \<and> \<not> py_ge k (shape Y ! 1))"

subsection \<open>The tensors of the examples\<close>

definition ex_h :: "real store" where
  "ex_h = [[0, 0, 0, 0], [1, 0, 0, 1], [1, 0, 0, 1], [1, 1], [1, 0], [1, 0],
           [0, 0, 0, 0, 0, 0]]"

definition ex_X :: tensor where
  "ex_X = \<lparr>base = 0, shape = [2, 2], offs = [0, 1, 2, 3]\<rparr>"

definition ex_Y :: tensor where
  "ex_Y = \<lparr>base = 1, shape = [2, 2], offs = [0, 1, 2, 3]\<rparr>"

definition ex_W :: tensor where
  "ex_W = \<lparr>base = 2, shape = [2, 2], offs = [0, 1, 2, 3]\<rparr>"

definition ex_bias :: tensor where
  "ex_bias = \<lparr>base = 3, shape = [2], offs = [0, 1]\<rparr>"

definition ex_Wa :: tensor where
  "ex_Wa = \<lparr>base = 4, shape = [2, 1], offs = [0, 1]\<rparr>"

definition ex_Wb :: tensor where
  "ex_Wb = \<lparr>base = 5, shape = [1, 2], offs = [0, 1]\<rparr>"

definition ex_X3 :: tensor where
  "ex_X3 = \<lparr>base = 6, shape = [3, 2], offs = [0, 1, 2, 3, 4, 5]\<rparr>"

definition ex_X4 :: tensor where
  "ex_X4 = \<lparr>base = 0, shape = [1, 4], offs = [0, 1, 2, 3]\<rparr>"

definition ex_W42 :: tensor where
  "ex_W42 = \<lparr>base = 1, shape = [4, 2], offs = [0, 1, 2, 3, 4, 5, 6, 7]\<rparr>"

definition ex_store2 :: "real store" where
  "ex_store2 = [[0, 0, 0, 0], [1, 0, 0, 1, 0, 0, 0, 0]]"

definition ex_hc :: "real store" where
  "ex_hc = [[0, 0], [1]]"

definition ex_inputs :: tensor where
  "ex_inputs = \<lparr>base = 0, shape = [1, 1, 1, 2], offs = [0, 1]\<rparr>"

definition ex_kernel :: tensor where
  "ex_kernel = \<lparr>base = 1, shape = [1, 1, 1, 1], offs = [0]\<rparr>"

definition ex_hk :: "real store" where
  "ex_hk = [[1, 2, 3, 4]]"

definition ex_K :: tensor where
  "ex_K = \<lparr>base = 0, shape = [2, 1, 1, 2], offs = [0, 1, 2, 3]\<rparr>"

text \<open>
  \<open>pres n m Q\<close>: run from a store of at least \<open>n\<close> buffers, the computation \<open>m\<close> leaves the
  first \<open>n\<close> buffers as they are, whether it returns or fails, and a result satisfies \<open>Q\<close>.
\<close>

definition pres :: "nat \<Rightarrow> ('a, 'r) run \<Rightarrow> ('r \<Rightarrow> bool) \<Rightarrow> bool" where
  "pres n m Q \<longleftrightarrow>
     (\<forall>h. n \<le> length h \<longrightarrow>
        take n (snd (m h)) = take n h \<and> n \<le> length (snd (m h))
        \<and> (\<forall>x. fst (m h) = Inr x \<longrightarrow> Q x))"

text \<open>
  The tensors of a solution, and the solutions all of whose tensors were allocated by the call:
  none lies in the caller's store \<open>h\<close>.
\<close>

definition tensors_of :: "LowRankSolution \<Rightarrow> tensor list" where
  "tensors_of sol =
     (case Wa sol of None \<Rightarrow> [] | Some t \<Rightarrow> [t]) @ (case Wb sol of None \<Rightarrow> [] | Some t \<Rightarrow> [t])
     @ (case bias sol of None \<Rightarrow> [] | Some t \<Rightarrow> [t])
     @ (case nmse sol of NmseNum i \<Rightarrow> [] | NmseTensor t \<Rightarrow> [t])"

definition freshly_allocated :: "'a store \<Rightarrow> LowRankSolution \<Rightarrow> bool" where
  "freshly_allocated h sol = list_all (\<lambda>t. length h \<le> base t) (tensors_of sol)"

text \<open>Library calls on values, one after the other, stopping at the first error.\<close>

definition bindE :: "error + 'b \<Rightarrow> ('b \<Rightarrow> error + 'c) \<Rightarrow> error + 'c" where
  "bindE r f = (case r of Inl e \<Rightarrow> Inl e | Inr x \<Rightarrow> f x)"

text \<open>
  The bias in the words of the specification: the mean over the samples of the residual
  (the target minus \<open>X @ Wa @ Wb\<close>), plus the supplied bias when there is one.
\<close>

definition mean_residual_plus_bias ::
  "'a numlib \<Rightarrow> 'a tval \<Rightarrow> 'a tval \<Rightarrow> 'a tval \<Rightarrow> 'a tval \<Rightarrow> 'a tval option \<Rightarrow> error + 'a tval" where
  "mean_residual_plus_bias L x wa wb y ob =
     bindE (matmul L x wa) (\<lambda>xw.
     bindE (matmul L xw wb) (\<lambda>y_hat.
     bindE (t_sub L y y_hat) (\<lambda>residual.
     bindE (t_mean0 L residual) (\<lambda>m.
     case ob of None \<Rightarrow> Inr m | Some b \<Rightarrow> t_add L m b))))"

text \<open>A well-formed value has as many elements as its shape says.\<close>

definition wf_val :: "'a tval \<Rightarrow> bool" where
  "wf_val v \<longleftrightarrow> length (elems v) = prod_list (dims v)"

text \<open>
  \<open>grows l m Q\<close>: run from a store of at least \<open>l\<close> buffers, a computation \<open>m\<close> that returns
  leaves a store that is not shorter, and its result satisfies \<open>Q\<close> at the new length.
\<close>

definition grows :: "nat \<Rightarrow> ('a, 'r) run \<Rightarrow> ('r \<Rightarrow> nat \<Rightarrow> bool) \<Rightarrow> bool" where
  "grows l m Q \<longleftrightarrow>
     (\<forall>h x h'. l \<le> length h \<longrightarrow> m h = (Inr x, h') \<longrightarrow> length h \<le> length h' \<and> Q x (length h'))"

text \<open>
  An iterative run: \<open>X\<close> is zero, \<open>Y\<close> and \<open>Wa\<close> are the identity, the bias is \<open>[1, 1]\<close>, the rank
  is one and there is one iteration. \<open>it_h1\<close> to \<open>it_h15\<close> are the stores after each step.
\<close>

definition it_h0 :: "real store" where
  "it_h0 = [[0, 0, 0, 0], [1, 0, 0, 1], [1, 0, 0, 1], [1, 1]]"

definition it_h1 :: "real store" where
  "it_h1 = it_h0 @ [[0, - 1, - 1, 0]]"

definition it_h2 :: "real store" where
  "it_h2 = it_h1 @ [[1, 0, 0, 1], [1, 1], [1, 0, 0, 1], [1]]"

definition it_h3 :: "real store" where
  "it_h3 = it_h2 @ [[0, 0, 0, 0]]"

definition it_h4 :: "real store" where
  "it_h4 = it_h3 @ [[0, 0], [0, 0], [0, 0]]"

definition it_h5 :: "real store" where
  "it_h5 = it_h4 @ [[0, 0]]"

definition it_h6 :: "real store" where
  "it_h6 = it_h5 @ [[0, 0, 0, 0]]"

definition it_h7 :: "real store" where
  "it_h7 = it_h6 @ [[0, - 1, - 1, 0]]"

definition it_h8 :: "real store" where
  "it_h8 = it_h7 @ [[- (1 / 2), - (1 / 2)]]"

definition it_h9 :: "real store" where
  "it_h9 = it_h8[16 := [1 / 2, 1 / 2]]"

definition it_h10 :: "real store" where
  "it_h10 = it_h9[14 := [1 / 2, 1 / 2, 1 / 2, 1 / 2]]"

definition it_h11 :: "real store" where
  "it_h11 = it_h10 @ [[- (1 / 2), - (3 / 2), - (3 / 2), - (1 / 2)]]"

definition it_h12 :: "real store" where
  "it_h12 = it_h11 @ [[1 / 4, 9 / 4, 9 / 4, 1 / 4]]"

definition it_h13 :: "real store" where
  "it_h13 = it_h12 @ [[5 / 4]]"

definition it_h14 :: "real store" where
  "it_h14 = it_h13 @ [[1 / 3]]"

definition it_h15 :: "real store" where
  "it_h15 = it_h14 @ [[15 / 4]]"

text \<open>Contiguous tensors of the shapes of the run, by their address.\<close>

definition mat22 :: "nat \<Rightarrow> tensor" where
  "mat22 a = \<lparr>base = a, shape = [2, 2], offs = [0, 1, 2, 3]\<rparr>"

definition mat21 :: "nat \<Rightarrow> tensor" where
  "mat21 a = \<lparr>base = a, shape = [2, 1], offs = [0, 1]\<rparr>"

definition mat12 :: "nat \<Rightarrow> tensor" where
  "mat12 a = \<lparr>base = a, shape = [1, 2], offs = [0, 1]\<rparr>"

definition vec2 :: "nat \<Rightarrow> tensor" where
  "vec2 a = \<lparr>base = a, shape = [2], offs = [0, 1]\<rparr>"

definition scalar :: "nat \<Rightarrow> tensor" where
  "scalar a = \<lparr>base = a, shape = [], offs = [0]\<rparr>"

definition it_wa2 :: tensor where
  "it_wa2 = \<lparr>base = 5, shape = [2, 1], offs = [0, 2]\<rparr>"

text \<open>
  The error in the words of claim C3: the mean of the squared residual between the caller's
  \<open>Y\<close> and the full approximation \<open>X @ Wa @ Wb + bias\<close>, divided by the variance of \<open>Y\<close>.
\<close>

definition nmse_claimed ::
  "'a numlib \<Rightarrow> 'a tval \<Rightarrow> 'a tval \<Rightarrow> 'a tval \<Rightarrow> 'a tval \<Rightarrow> 'a tval \<Rightarrow> error + 'a tval" where
  "nmse_claimed L x wa wb b y =
     bindE (matmul L x wa) (\<lambda>xw.
     bindE (matmul L xw wb) (\<lambda>product.
     bindE (t_add L product b) (\<lambda>approximation.
     bindE (t_sub L y approximation) (\<lambda>residual.
     bindE (t_mul L residual residual) (\<lambda>squares.
     bindE (t_mean L squares) (\<lambda>m.
     bindE (t_var L y) (\<lambda>v.
     t_div L m v)))))))"

text \<open>
  The stride or dilation a convolution can have: every component is positive. It is one when
  every component is one.
\<close>

definition positive_arg :: "intarg \<Rightarrow> bool" where
  "positive_arg a =
     (case a of Single n \<Rightarrow> 0 < n | Tuple xs \<Rightarrow> xs \<noteq> [] \<and> list_all (\<lambda>n. 0 < n) xs)"

definition all_ones :: "intarg \<Rightarrow> bool" where
  "all_ones a = (case a of Single n \<Rightarrow> n = 1 | Tuple xs \<Rightarrow> list_all (\<lambda>n. n = 1) xs)"

section \<open>Basic facts\<close>

lemma returnM_apply: "returnM x h = (Inr x, h)"
  by (simp add: returnM_def)

lemma raiseM_apply: "raiseM e h = (Inl e, h)"
  by (simp add: raiseM_def)

lemma bindM_run:
  "bindM m f h = (case m h of (Inl e, h') \<Rightarrow> (Inl e, h') | (Inr x, h') \<Rightarrow> f x h')"
  by (simp add: bindM_def)

lemmas run_simps = bindM_run returnM_apply raiseM_apply

lemma detach_id [simp]: "detach t = t"
  by (simp add: detach_def)

lemma map_option_detach [simp]: "map_option detach x = x"
  by (cases x) simp_all

lemma alloc_run: "alloc v h = (Inr (fresh_tensor h v), h @ [elems v])"
  by (simp add: alloc_def fresh_tensor_def)

lemma get_val_fresh [simp]: "get_val (h @ [elems v]) (fresh_tensor h v) = v"
  by (simp add: get_val_def fresh_tensor_def map_nth)

lemma get_val_append [simp]: "base t < length h \<Longrightarrow> get_val (h @ ys) t = get_val h t"
  by (simp add: get_val_def nth_append)

lemma shape_fresh [simp]: "shape (fresh_tensor h v) = dims v"
  by (simp add: fresh_tensor_def)

lemma base_fresh [simp]: "base (fresh_tensor h v) = length h"
  by (simp add: fresh_tensor_def)

lemma lift2_run:
  "lift2 f t u h =
     (case f (get_val h t) (get_val h u) of
        Inl e \<Rightarrow> (Inl e, h)
      | Inr v \<Rightarrow> (Inr (fresh_tensor h v), h @ [elems v]))"
  by (simp add: lift2_def alloc_run split: sum.split)

lemma lift1_run:
  "lift1 f t h =
     (case f (get_val h t) of
        Inl e \<Rightarrow> (Inl e, h)
      | Inr v \<Rightarrow> (Inr (fresh_tensor h v), h @ [elems v]))"
  by (simp add: lift1_def alloc_run split: sum.split)

lemma shape_at_run:
  "shape_at t i h = (if i < length (shape t) then (Inr (shape t ! i), h) else (Inl IndexError, h))"
  by (simp add: shape_at_def run_simps)

subsection \<open>The three paths of \<^verbatim>\<open>factorize_matrix\<close>\<close>

lemma resolve_rank_store: "snd (resolve_rank L rank0 X Wa0 h) = h"
  by (simp add: resolve_rank_def run_simps shape_at_run)

lemma resolve_rank_run:
  "fst (resolve_rank L rank0 X Wa0 h) = Inr k \<Longrightarrow> resolve_rank L rank0 X Wa0 h = (Inr k, h)"
  using resolve_rank_store [of L rank0 X Wa0 h] by (cases "resolve_rank L rank0 X Wa0 h") simp

lemma resolve_rank_error:
  "fst (resolve_rank L rank0 X Wa0 h) = Inl e \<Longrightarrow>
     resolve_rank L rank0 X Wa0 h = (Inl IndexError, h)"
  by (auto simp: resolve_rank_def run_simps shape_at_run split: if_splits)

lemma shift_run:
  assumes "target_minus_bias L h Y bias0 = Inr y"
  shows "(case bias0 of None \<Rightarrow> returnM Y | Some ob \<Rightarrow> lift2 (t_sub L) Y ob) h =
           (Inr (fst (shifted h Y bias0 y)), snd (shifted h Y bias0 y))"
  using assms
  by (cases bias0) (simp_all add: target_minus_bias_def shifted_def lift2_run run_simps)

lemma shifted_val:
  assumes "target_minus_bias L h Y bias0 = Inr y"
  shows "get_val (snd (shifted h Y bias0 y)) (fst (shifted h Y bias0 y)) = y"
  using assms by (cases bias0) (auto simp: target_minus_bias_def shifted_def)

lemma shifted_shape:
  assumes "target_minus_bias L h Y bias0 = Inr y"
  shows "shape (fst (shifted h Y bias0 y)) = dims y"
  using assms by (cases bias0) (auto simp: target_minus_bias_def shifted_def get_val_def)

lemma shifted_old:
  "base t < length h \<Longrightarrow> get_val (snd (shifted h Y bias0 y)) t = get_val h t"
  by (cases bias0) (simp_all add: shifted_def)

lemma shifted_prefix: "prefix h (snd (shifted h Y bias0 y))"
  by (cases bias0) (simp_all add: shifted_def)

lemma fm_case_A:
  assumes k: "fst (resolve_rank L rank0 X Wa0 h) = Inr k"
    and y: "target_minus_bias L h Y bias0 = Inr y"
    and X: "1 < length (shape X)"
    and A: "py_ge k (shape X ! 1) \<or> 1 < length (dims y) \<and> py_ge k (dims y ! 1)"
  shows "factorize_matrix L X Y Wa0 Wb0 bias0 rank0 n_iters h =
           bindM (lstsq L X (fst (shifted h Y bias0 y)))
             (\<lambda>W. returnM \<lparr>Wa = Some W, Wb = None, bias = bias0, rank = PyInt (- 1),
                            nmse = NmseNum 0\<rparr>)
             (snd (shifted h Y bias0 y))"
  using X A
  by (auto simp: factorize_matrix_def Let_def run_simps resolve_rank_run [OF k] shift_run [OF y]
        shifted_shape [OF y] shape_at_run)

lemma fm_case_B:
  assumes k: "fst (resolve_rank L rank0 X Wa0 h) = Inr k"
    and y: "target_minus_bias L h Y bias0 = Inr y"
    and X: "1 < length (shape X)" "\<not> py_ge k (shape X ! 1)"
    and Y: "1 < length (dims y)" "\<not> py_ge k (dims y ! 1)"
    and W: "1 < length (shape Wa0)" "py_ge k (shape Wa0 ! 1)"
  shows "factorize_matrix L X Y Wa0 Wb0 bias0 rank0 n_iters h =
           (Inr \<lparr>Wa = Some Wa0, Wb = Wb0, bias = bias0, rank = PyInt (- 1), nmse = NmseNum 0\<rparr>,
            snd (shifted h Y bias0 y))"
  using X Y W
  by (simp add: factorize_matrix_def Let_def run_simps resolve_rank_run [OF k] shift_run [OF y]
        shifted_shape [OF y] shape_at_run)

lemma fm_iterative:
  assumes k: "fst (resolve_rank L rank0 X Wa0 h) = Inr k"
    and y: "target_minus_bias L h Y bias0 = Inr y"
    and X: "1 < length (shape X)" "\<not> py_ge k (shape X ! 1)"
    and Y: "1 < length (dims y)" "\<not> py_ge k (dims y ! 1)"
    and W: "1 < length (shape Wa0)" "\<not> py_ge k (shape Wa0 ! 1)"
  shows "factorize_matrix L X Y Wa0 Wb0 bias0 rank0 n_iters h =
           bindM (svd_initialize L Wa0 Wb0 k) (\<lambda>(Wa2, Wb2).
           bindM (lstsq L X (fst (shifted h Y bias0 y))) (\<lambda>Ya.
           bindM (als_loop L X (fst (shifted h Y bias0 y)) Ya (nat n_iters) Wa2 Wb2)
             (\<lambda>(Wa3, Wb3).
           finish L X (fst (shifted h Y bias0 y)) bias0 k Wa3 Wb3)))
             (snd (shifted h Y bias0 y))"
  using X Y W
  by (simp add: factorize_matrix_def Let_def run_simps resolve_rank_run [OF k] shift_run [OF y]
        shifted_shape [OF y] shape_at_run)

lemma lstsq_run:
  assumes "shape A = [N, D]" and "shape B = [N, M]"
  shows "lstsq L A B h = lift2 (linalg_lstsq L) A B h"
  using assms by (simp add: lstsq_def run_simps shape_at_run)

lemma lstsq_bad:
  assumes "length (shape A) \<noteq> 2 \<or> length (shape B) \<noteq> 2 \<or> shape A ! 0 \<noteq> shape B ! 0"
  shows "lstsq L A B h = (Inl IndexError, h)"
  using assms by (auto simp: lstsq_def run_simps shape_at_run)

section \<open>The resolved rank\<close>

text \<open>
  C2, as amended. A rank below one is multiplied by \<open>D\<close>, the number of columns of \<open>X\<close>;
  the product is truncated by \<^verbatim>\<open>int\<close>, and the result is capped by the number of columns of
  \<open>Wa\<close>: \<open>k = min (int (rank * D)) d\<close>. The fraction is not applied to the minimum of \<open>D\<close>
  and \<open>d\<close>.
\<close>

theorem resolve_rank_fraction:
  assumes "py_lt1 rank0" and "1 < length (shape X)" and "1 < length (shape Wa0)"
  shows "resolve_rank L rank0 X Wa0 h =
           (Inr (PyInt (min (py_int (py_mul L rank0 (shape X ! 1))) (int (shape Wa0 ! 1)))), h)"
  using assms by (simp add: resolve_rank_def run_simps shape_at_run)

theorem resolve_rank_fraction_witness:
  "resolve_rank ref_lib (PyFloat (1 / 2)) ex_X4 ex_W42 ex_store2 = (Inr (PyInt 2), ex_store2)"
proof -
  have "py_lt1 (PyFloat (1 / 2))" by (simp add: py_lt1_def)
  moreover have "1 < length (shape ex_X4)" "1 < length (shape ex_W42)"
    by (simp_all add: ex_X4_def ex_W42_def)
  ultimately show ?thesis
    using resolve_rank_fraction [of "PyFloat (1 / 2)" ex_X4 ex_W42 ref_lib ex_store2]
    by (simp add: py_int_def py_mul_def ref_lib_def ex_X4_def ex_W42_def)
qed

text \<open>
  C2 as stated fails: with \<open>rank = 0.5\<close>, \<open>D = 4\<close> and a \<open>Wa\<close> of two columns the code resolves
  \<open>k = min (int (0.5 * 4)) 2 = 2\<close>, and the claim says \<open>floor (0.5 * min 4 2) = 1\<close>.
\<close>

theorem resolve_rank_not_fraction_of_min:
  "fst (resolve_rank ref_lib (PyFloat (1 / 2)) ex_X4 ex_W42 ex_store2) = Inr (PyInt 2)
   \<and> PyInt 2 \<noteq> PyInt \<lfloor>(1 / 2 :: real) * real (min (4::nat) 2)\<rfloor>"
  by (simp add: resolve_rank_def py_lt1_def py_int_def py_mul_def ref_lib_def ex_X4_def
        ex_W42_def run_simps shape_at_run)

section \<open>The degenerate cases\<close>

text \<open>
  C4. When the resolved rank \<open>k\<close> is at least \<open>D\<close> or at least \<open>M\<close>, a valid call returns a
  solution whose \<open>Wa\<close> holds what the library's least-squares solver returns for \<open>X\<close> and the
  target (\<open>Y\<close> minus the bias when one is supplied), with no \<open>Wb\<close> and the sentinel rank.
  A valid call: \<open>X\<close> is \<open>[N, D]\<close>, \<open>Y\<close> and the target are \<open>[N, M]\<close>, \<open>X\<close> lives in the
  caller's store and the solver answers. Nothing is assumed about the current rank of \<open>Wa\<close>:
  this case comes first.
\<close>

theorem case_A_least_squares:
  assumes k: "fst (resolve_rank L rank0 X Wa0 h) = Inr k"
    and y: "target_minus_bias L h Y bias0 = Inr y"
    and X: "shape X = [N, D]" "base X < length h"
    and Y: "dims y = [N, M]" "shape Y = [N, M]"
    and A: "py_ge k D \<or> py_ge k M"
    and w: "linalg_lstsq L (get_val h X) y = Inr w"
  shows "\<exists>W h'. factorize_matrix L X Y Wa0 Wb0 bias0 rank0 n_iters h =
                  (Inr \<lparr>Wa = Some W, Wb = None, bias = bias0, rank = PyInt (- 1),
                        nmse = NmseNum 0\<rparr>, h')
               \<and> get_val h' W = w"
proof -
  let ?Y1 = "fst (shifted h Y bias0 y)" and ?h1 = "snd (shifted h Y bias0 y)"
  have "factorize_matrix L X Y Wa0 Wb0 bias0 rank0 n_iters h =
          bindM (lstsq L X ?Y1)
            (\<lambda>W. returnM \<lparr>Wa = Some W, Wb = None, bias = bias0, rank = PyInt (- 1),
                           nmse = NmseNum 0\<rparr>) ?h1"
    using X Y A by (intro fm_case_A [OF k y]) auto
  moreover have "lstsq L X ?Y1 ?h1 = (Inr (fresh_tensor ?h1 w), ?h1 @ [elems w])"
    using X Y w
    by (simp add: lstsq_run [of X N D ?Y1 M] shifted_shape [OF y] lift2_run shifted_val [OF y]
          shifted_old)
  ultimately show ?thesis
    by (simp add: run_simps)
qed

theorem case_A_least_squares_witness:
  "\<exists>W h'. factorize_matrix ref_lib ex_X ex_Y ex_W None (Some ex_bias) (PyInt 2) 3 ex_h =
             (Inr \<lparr>Wa = Some W, Wb = None, bias = Some ex_bias, rank = PyInt (- 1),
                   nmse = NmseNum 0\<rparr>, h')
          \<and> get_val h' W = \<lparr>dims = [2, 2], elems = [0, 0, 0, 0]\<rparr>"
proof -
  have k: "fst (resolve_rank ref_lib (PyInt 2) ex_X ex_W ex_h) = Inr (PyInt 2)" by code_simp
  have y: "target_minus_bias ref_lib ex_h ex_Y (Some ex_bias) =
             Inr \<lparr>dims = [2, 2], elems = [0, - 1, - 1, 0]\<rparr>" by code_simp
  have X: "shape ex_X = [2, 2]" "base ex_X < length ex_h" by code_simp+
  have Y: "shape ex_Y = [2, 2]" by code_simp
  have A: "py_ge (PyInt 2) 2 \<or> py_ge (PyInt 2) 2" by code_simp
  have w: "linalg_lstsq ref_lib (get_val ex_h ex_X) \<lparr>dims = [2, 2], elems = [0, - 1, - 1, 0]\<rparr> =
             Inr \<lparr>dims = [2, 2], elems = [0, 0, 0, 0]\<rparr>" by code_simp
  show ?thesis
    using case_A_least_squares [OF k y X _ Y A w] by simp
qed

text \<open>
  C5. With an already-factorized pair, a resolved rank below \<open>D\<close> and \<open>M\<close> and at least the
  number of columns of \<open>Wa\<close>, a valid call returns the caller's \<open>Wa\<close> and \<open>Wb\<close> themselves,
  holding the values they held before the call, and the sentinel rank.
\<close>

theorem case_B_returns_inputs:
  assumes k: "fst (resolve_rank L rank0 X Wa0 h) = Inr k"
    and y: "target_minus_bias L h Y bias0 = Inr y"
    and X: "shape X = [N, D]"
    and Y: "dims y = [N, M]" "shape Y = [N, M]"
    and W: "shape Wa0 = [D, d]" "base Wa0 < length h" "base wb < length h"
    and B: "\<not> py_ge k D" "\<not> py_ge k M" "py_ge k d"
  shows "\<exists>h'. factorize_matrix L X Y Wa0 (Some wb) bias0 rank0 n_iters h =
                (Inr \<lparr>Wa = Some Wa0, Wb = Some wb, bias = bias0, rank = PyInt (- 1),
                      nmse = NmseNum 0\<rparr>, h')
             \<and> get_val h' Wa0 = get_val h Wa0 \<and> get_val h' wb = get_val h wb"
  using X Y W B by (simp add: fm_case_B [OF k y] shifted_old)

theorem case_B_returns_inputs_witness:
  "\<exists>h'. factorize_matrix ref_lib ex_X ex_Y ex_Wa (Some ex_Wb) (Some ex_bias) (PyInt 1) 3 ex_h =
           (Inr \<lparr>Wa = Some ex_Wa, Wb = Some ex_Wb, bias = Some ex_bias, rank = PyInt (- 1),
                 nmse = NmseNum 0\<rparr>, h')
        \<and> get_val h' ex_Wa = get_val ex_h ex_Wa \<and> get_val h' ex_Wb = get_val ex_h ex_Wb"
proof -
  have k: "fst (resolve_rank ref_lib (PyInt 1) ex_X ex_Wa ex_h) = Inr (PyInt 1)" by code_simp
  have y: "target_minus_bias ref_lib ex_h ex_Y (Some ex_bias) =
             Inr \<lparr>dims = [2, 2], elems = [0, - 1, - 1, 0]\<rparr>" by code_simp
  have X: "shape ex_X = [2, 2]" by code_simp
  have W: "shape ex_Wa = [2, 1]" "base ex_Wa < length ex_h" "base ex_Wb < length ex_h"
    by code_simp+
  have Y: "shape ex_Y = [2, 2]" by code_simp
  have B: "\<not> py_ge (PyInt 1) 2" "\<not> py_ge (PyInt 1) 2" "py_ge (PyInt 1) 1" by code_simp+
  show ?thesis
    using case_B_returns_inputs [OF k y X _ Y W B] by simp
qed

text \<open>
  C1, as amended. A solution returned by the first degenerate case (\<open>k\<close> at least \<open>D\<close> or
  \<open>M\<close>) has the sentinel rank, no \<open>Wb\<close>, and a \<open>Wa\<close> that holds the least-squares fit, the
  full linear map. A solution returned by the second degenerate case (\<open>k\<close> below \<open>D\<close> and
  \<open>M\<close>, at least the number of columns of \<open>Wa\<close>) has the sentinel rank too, and its \<open>Wa\<close> and
  \<open>Wb\<close> are the caller's: \<open>Wb\<close> is absent only when the caller supplied none.
\<close>

theorem sentinel_rank_solutions:
  assumes run: "factorize_matrix L X Y Wa0 Wb0 bias0 rank0 n_iters h = (Inr sol, h')"
    and k: "fst (resolve_rank L rank0 X Wa0 h) = Inr k"
    and y: "target_minus_bias L h Y bias0 = Inr y"
    and X: "shape X = [N, D]" "base X < length h"
    and Y: "dims y = [N, M]"
    and W: "shape Wa0 = [D, d]"
  shows "(py_ge k D \<or> py_ge k M \<longrightarrow>
            rank sol = PyInt (- 1) \<and> Wb sol = None
            \<and> (\<exists>W. Wa sol = Some W \<and> linalg_lstsq L (get_val h X) y = Inr (get_val h' W)))
       \<and> (\<not> py_ge k D \<and> \<not> py_ge k M \<and> py_ge k d \<longrightarrow>
            rank sol = PyInt (- 1) \<and> Wa sol = Some Wa0 \<and> Wb sol = Wb0)"
proof -
  let ?Y1 = "fst (shifted h Y bias0 y)" and ?h1 = "snd (shifted h Y bias0 y)"
  have "rank sol = PyInt (- 1) \<and> Wb sol = None
        \<and> (\<exists>W. Wa sol = Some W \<and> linalg_lstsq L (get_val h X) y = Inr (get_val h' W))"
    if A: "py_ge k D \<or> py_ge k M"
  proof -
    have "factorize_matrix L X Y Wa0 Wb0 bias0 rank0 n_iters h =
            bindM (lstsq L X ?Y1)
              (\<lambda>W. returnM \<lparr>Wa = Some W, Wb = None, bias = bias0, rank = PyInt (- 1),
                             nmse = NmseNum 0\<rparr>) ?h1"
      using X Y A by (intro fm_case_A [OF k y]) auto
    moreover have "lstsq L X ?Y1 ?h1 =
                     (case linalg_lstsq L (get_val h X) y of
                        Inl e \<Rightarrow> (Inl e, ?h1)
                      | Inr v \<Rightarrow> (Inr (fresh_tensor ?h1 v), ?h1 @ [elems v]))"
      using X Y
      by (simp add: lstsq_run [of X N D ?Y1 M] shifted_shape [OF y] lift2_run shifted_val [OF y]
            shifted_old)
    ultimately show ?thesis
      using run by (auto simp: run_simps split: sum.splits)
  qed
  moreover have "rank sol = PyInt (- 1) \<and> Wa sol = Some Wa0 \<and> Wb sol = Wb0"
    if B: "\<not> py_ge k D \<and> \<not> py_ge k M \<and> py_ge k d"
    using run X Y W B by (auto simp: fm_case_B [OF k y])
  ultimately show ?thesis by blast
qed

theorem sentinel_rank_solutions_witness:
  "\<exists>sol h'. factorize_matrix ref_lib ex_X ex_Y ex_W None None (PyInt 2) 3 ex_h = (Inr sol, h')
      \<and> rank sol = PyInt (- 1) \<and> Wb sol = None"
proof -
  have "fst (factorize_matrix ref_lib ex_X ex_Y ex_W None None (PyInt 2) 3 ex_h) =
          Inr \<lparr>Wa = Some \<lparr>base = 7, shape = [2, 2], offs = [0, 1, 2, 3]\<rparr>, Wb = None,
                bias = None, rank = PyInt (- 1), nmse = NmseNum 0\<rparr>"
    by code_simp
  then obtain sol h' where run:
    "factorize_matrix ref_lib ex_X ex_Y ex_W None None (PyInt 2) 3 ex_h = (Inr sol, h')"
    by (metis prod.collapse)
  have k: "fst (resolve_rank ref_lib (PyInt 2) ex_X ex_W ex_h) = Inr (PyInt 2)" by code_simp
  have y: "target_minus_bias ref_lib ex_h ex_Y None = Inr \<lparr>dims = [2, 2], elems = [1, 0, 0, 1]\<rparr>"
    by code_simp
  have X: "shape ex_X = [2, 2]" "base ex_X < length ex_h" and W: "shape ex_W = [2, 2]"
    by code_simp+
  have A: "py_ge (PyInt 2) 2 \<or> py_ge (PyInt 2) 2" by code_simp
  show ?thesis
    using sentinel_rank_solutions [OF run k y X _ W] A run by simp
qed

text \<open>
  C1 as stated fails: with the factorized pair \<open>ex_Wa\<close> (2 by 1), \<open>ex_Wb\<close> (1 by 2) and
  \<open>rank = 1\<close>, the rank is below \<open>D = 2\<close> and \<open>M = 2\<close> and equal to the current rank; the
  solution has the sentinel rank and its \<open>Wb\<close> is present.
\<close>

theorem sentinel_rank_with_Wb:
  "fst (factorize_matrix ref_lib ex_X ex_Y ex_Wa (Some ex_Wb) None (PyInt 1) 3 ex_h) =
     Inr \<lparr>Wa = Some ex_Wa, Wb = Some ex_Wb, bias = None, rank = PyInt (- 1), nmse = NmseNum 0\<rparr>"
  by code_simp

section \<open>The shape check\<close>

text \<open>
  C6, as amended. The check of the shapes is in \<^verbatim>\<open>_lstsq\<close>. When no bias is supplied and the
  call does not get past the first degenerate case, a call whose \<open>X\<close> and \<open>Y\<close> differ in their
  number of rows, or are not both two-dimensional, fails with IndexError (ShapeMismatch) and
  leaves the store as it was: nothing has been computed.
\<close>

theorem shape_check_in_case_A:
  assumes bad: "length (shape X) \<noteq> 2 \<or> length (shape Y) \<noteq> 2 \<or> shape X ! 0 \<noteq> shape Y ! 0"
    and A: "\<not> rank_below_both L rank0 X Y Wa0 h"
  shows "factorize_matrix L X Y Wa0 Wb0 None rank0 n_iters h = (Inl IndexError, h)"
proof (cases "fst (resolve_rank L rank0 X Wa0 h)")
  case (Inl e)
  then show ?thesis
    by (simp add: factorize_matrix_def Let_def bindM_run resolve_rank_error)
next
  case (Inr k)
  have y: "target_minus_bias L h Y None = Inr (get_val h Y)"
    by (simp add: target_minus_bias_def)
  show ?thesis
  proof (cases "1 < length (shape X) \<and> (py_ge k (shape X ! 1) \<or> 1 < length (shape Y))")
    case True
    with A Inr have "py_ge k (shape X ! 1)
        \<or> 1 < length (dims (get_val h Y)) \<and> py_ge k (dims (get_val h Y) ! 1)"
      by (auto simp: rank_below_both_def get_val_def)
    with True show ?thesis
      using bad by (simp add: fm_case_A [OF Inr y] shifted_def bindM_run lstsq_bad)
  next
    case False
    then show ?thesis
      by (auto simp: factorize_matrix_def Let_def run_simps resolve_rank_run [OF Inr]
            shape_at_run)
  qed
qed

theorem shape_check_in_case_A_witness:
  "shape ex_X3 ! 0 \<noteq> shape ex_Y ! 0
   \<and> \<not> rank_below_both ref_lib (PyInt 2) ex_X3 ex_Y ex_W ex_h
   \<and> factorize_matrix ref_lib ex_X3 ex_Y ex_W None None (PyInt 2) 3 ex_h = (Inl IndexError, ex_h)"
proof -
  have bad: "shape ex_X3 ! 0 \<noteq> shape ex_Y ! 0" by code_simp
  have A: "\<not> rank_below_both ref_lib (PyInt 2) ex_X3 ex_Y ex_W ex_h" by code_simp
  from bad have "length (shape ex_X3) \<noteq> 2 \<or> length (shape ex_Y) \<noteq> 2
      \<or> shape ex_X3 ! 0 \<noteq> shape ex_Y ! 0"
    by blast
  from shape_check_in_case_A [OF this A] bad A show ?thesis by blast
qed

text \<open>
  C6 as stated fails: \<open>ex_X3\<close> has three rows and \<open>ex_Y\<close> two, and with a factorized pair of
  current rank one and \<open>rank = 1\<close> the call returns a solution: the second degenerate case
  returns before any check.
\<close>

theorem mismatched_rows_accepted:
  "fst (factorize_matrix ref_lib ex_X3 ex_Y ex_Wa (Some ex_Wb) None (PyInt 1) 3 ex_h) =
     Inr \<lparr>Wa = Some ex_Wa, Wb = Some ex_Wb, bias = None, rank = PyInt (- 1), nmse = NmseNum 0\<rparr>
   \<and> shape ex_X3 ! 0 \<noteq> shape ex_Y ! 0"
  by code_simp

section \<open>The guard of the convolution adapter\<close>

lemma fold_max_gt_one:
  fixes x :: int
  shows "1 < fold max xs x \<longleftrightarrow> 1 < x \<or> (\<exists>y\<in>set xs. 1 < y)"
  by (induction xs arbitrary: x) auto

lemma np_max_positive:
  assumes "positive_arg a"
  shows "\<exists>m. np_max a = Inr m \<and> (1 < m \<longleftrightarrow> \<not> all_ones a)"
proof (cases a)
  case (Single n)
  with assms show ?thesis
    by (auto simp: positive_arg_def all_ones_def np_max_def)
next
  case (Tuple xs)
  with assms obtain x ys where xs: "xs = x # ys" and pos: "0 < x" "\<forall>y\<in>set ys. 0 < y"
    by (cases xs) (auto simp: positive_arg_def list_all_iff)
  have x1: "1 < x \<longleftrightarrow> x \<noteq> 1"
    using pos(1) by arith
  have y1: "\<forall>y\<in>set ys. 1 < y \<longleftrightarrow> y \<noteq> 1"
  proof
    fix y assume "y \<in> set ys"
    with pos(2) have "0 < y" by blast
    then show "1 < y \<longleftrightarrow> y \<noteq> 1" by arith
  qed
  from x1 y1
  have "(1 < x \<or> (\<exists>y\<in>set ys. 1 < y)) \<longleftrightarrow> \<not> (x = 1 \<and> (\<forall>y\<in>set ys. y = 1))"
    by blast
  then show ?thesis
    by (simp add: Tuple xs np_max_def all_ones_def fold_max_gt_one list_all_iff)
qed

lemma conv2d_guard:
  assumes "np_max (stride kw) = Inr s"
    and "1 < s \<or> (\<exists>d. np_max (dilation kw) = Inr d \<and> (1 < d \<or> groups kw \<noteq> 1))"
  shows "factorize_conv2d L inputs Wa0 Wb0 rank0 biasA biasB n_iters kw h =
           (Inl NotImplementedError, h)"
  using assms
  by (auto simp: factorize_conv2d_def activations_conv2d_to_mat_def liftE_def Let_def run_simps)

text \<open>
  C9. The stride and the dilation of a convolution are an int or a non-empty tuple of ints,
  all positive. For such arguments, a call of \<^verbatim>\<open>factorize_conv2d\<close> with a stride other than
  one, a dilation other than one or \<^verbatim>\<open>groups\<close> other than one fails with NotImplementedError
  (UnsupportedConfiguration), and the store is as it was: no tensor has been allocated, the
  patch matrix of \<^verbatim>\<open>unfold\<close> included.
\<close>

theorem factorize_conv2d_unsupported:
  assumes "positive_arg (stride kw)" and "positive_arg (dilation kw)"
    and "\<not> all_ones (stride kw) \<or> \<not> all_ones (dilation kw) \<or> groups kw \<noteq> 1"
  shows "factorize_conv2d L inputs Wa0 Wb0 rank0 biasA biasB n_iters kw h =
           (Inl NotImplementedError, h)"
proof -
  from np_max_positive [OF assms(1)] obtain s where
    s: "np_max (stride kw) = Inr s" and s1: "1 < s \<longleftrightarrow> \<not> all_ones (stride kw)" by blast
  from np_max_positive [OF assms(2)] obtain d where
    d: "np_max (dilation kw) = Inr d" and d1: "1 < d \<longleftrightarrow> \<not> all_ones (dilation kw)" by blast
  from assms(3) s1 d1 have "1 < s \<or> 1 < d \<or> groups kw \<noteq> 1" by blast
  with d have "1 < s \<or> (\<exists>d. np_max (dilation kw) = Inr d \<and> (1 < d \<or> groups kw \<noteq> 1))"
    by blast
  with s show ?thesis by (rule conv2d_guard)
qed

theorem factorize_conv2d_unsupported_witness:
  "positive_arg (Tuple [1, 2]) \<and> positive_arg (Single 1) \<and> \<not> all_ones (Tuple [1, 2])
   \<and> factorize_conv2d ref_lib ex_inputs ex_kernel None (PyInt 1) None None 3
        (default_kwargs\<lparr>stride := Tuple [1, 2]\<rparr>) ex_hc = (Inl NotImplementedError, ex_hc)"
proof -
  let ?kw = "default_kwargs\<lparr>stride := Tuple [1, 2]\<rparr>"
  have 1: "positive_arg (stride ?kw)" and 2: "positive_arg (dilation ?kw)"
    and 3: "\<not> all_ones (stride ?kw) \<or> \<not> all_ones (dilation ?kw) \<or> groups ?kw \<noteq> 1"
    by (simp_all add: positive_arg_def all_ones_def default_kwargs_def)
  from factorize_conv2d_unsupported [OF 1 2 3, of ref_lib ex_inputs ex_kernel None "PyInt 1" None None 3 ex_hc]
  show ?thesis
    by (simp add: positive_arg_def all_ones_def)
qed

section \<open>Weights as matrices and back\<close>

lemma T_view_2d:
  assumes "shape t = [r, c]"
  shows "T_view t = t\<lparr>shape := [c, r],
                       offs := map (\<lambda>n. offs t ! (n mod r * c + n div r)) [0..<length (offs t)]\<rparr>"
  using assms by (simp add: T_view_def)

lemma transpose_index_bound:
  fixes n r c :: nat
  assumes "n < r * c"
  shows "n mod c * r + n div c < r * c"
proof -
  have c: "0 < c" using assms by (cases c) auto
  have "n div c < r" using assms c by (simp add: less_mult_imp_div_less mult.commute)
  moreover have "n mod c < c" using c by simp
  then have "n mod c + 1 \<le> c" by simp
  then have "(n mod c + 1) * r \<le> c * r" by (rule mult_le_mono1)
  ultimately show ?thesis by (simp add: algebra_simps)
qed

lemma transpose_index_back:
  fixes n r c :: nat
  assumes "n < r * c"
  shows "(n mod c * r + n div c) mod r * c + (n mod c * r + n div c) div r = n"
proof -
  have c: "0 < c" using assms by (cases c) auto
  have d: "n div c < r" using assms c by (simp add: less_mult_imp_div_less mult.commute)
  then have "(n mod c * r + n div c) mod r = n div c" by simp
  moreover have "(n mod c * r + n div c) div r = n mod c" using d by simp
  ultimately show ?thesis by (simp add: mult.commute)
qed

lemma T_view_involution:
  assumes sh: "shape t = [r, c]" and wf: "length (offs t) = r * c"
  shows "T_view (T_view t) = t"
proof -
  let ?u = "T_view t"
  have u: "?u = t\<lparr>shape := [c, r],
                   offs := map (\<lambda>n. offs t ! (n mod r * c + n div r)) [0..<r * c]\<rparr>"
    using T_view_2d [OF sh] wf by simp
  have shu: "shape ?u = [c, r]" and lenu: "length (offs ?u) = r * c"
    by (simp_all add: u)
  have "offs (T_view ?u) = offs t"
  proof (rule nth_equalityI)
    show "length (offs (T_view ?u)) = length (offs t)"
      by (simp add: T_view_2d [OF shu] lenu wf)
  next
    fix n assume "n < length (offs (T_view ?u))"
    then have n: "n < r * c" by (simp add: T_view_2d [OF shu] lenu)
    then have m: "n mod c * r + n div c < r * c" by (rule transpose_index_bound)
    have "offs (T_view ?u) ! n = offs ?u ! (n mod c * r + n div c)"
      using n by (simp add: T_view_2d [OF shu] lenu)
    also have "\<dots> = offs t ! ((n mod c * r + n div c) mod r * c + (n mod c * r + n div c) div r)"
      using m by (simp add: u)
    also have "\<dots> = offs t ! n"
      by (simp only: transpose_index_back [OF n])
    finally show "offs (T_view ?u) ! n = offs t ! n" .
  qed
  moreover have "shape (T_view ?u) = shape t" "base (T_view ?u) = base t"
    by (simp_all add: T_view_def)
  ultimately show ?thesis by simp
qed

lemma length_offs_T_view [simp]: "length (offs (T_view t)) = length (offs t)"
  by (simp add: T_view_def)

lemma shape_T_view [simp]: "shape (T_view t) = rev (shape t)"
  by (simp add: T_view_def)

lemma base_T_view [simp]: "base (T_view t) = base t"
  by (simp add: T_view_def)

lemma reshape_ok:
  assumes "infer_size spec (prod_list (shape t)) = Inr sh"
  shows "\<exists>r h'. reshape L t spec h = (Inr r, h') \<and> shape r = sh
           \<and> elems (get_val h' r) = elems (get_val h t) \<and> length (offs r) = length (offs t)"
proof (cases "reshape_shares L t sh")
  case True
  then show ?thesis
    using assms by (simp add: reshape_def run_simps get_val_def)
next
  case False
  let ?v = "\<lparr>dims = sh, elems = elems (get_val h t)\<rparr>"
  have "reshape L t spec h = (Inr (fresh_tensor h ?v), h @ [elems ?v])"
    using assms False by (simp add: reshape_def alloc_run)
  moreover have "get_val (h @ [elems ?v]) (fresh_tensor h ?v) = ?v"
    by (rule get_val_fresh)
  moreover have "length (offs (fresh_tensor h ?v)) = length (offs t)"
    by (simp add: fresh_tensor_def get_val_def)
  ultimately show ?thesis by simp
qed

lemma infer_size_flatten:
  assumes "0 < n"
  shows "infer_size [Some n, None] (n * m) = Inr [n, m]"
  using assms by (simp add: infer_size_def)

lemma infer_size_kernel:
  assumes "0 < n" "0 < kh" "0 < kw"
  shows "infer_size [Some n, None, Some kh, Some kw] (n * (c * (kh * kw))) = Inr [n, c, kh, kw]"
proof -
  have "n * (c * (kh * kw)) = c * (n * (kh * kw))" by (simp add: algebra_simps)
  then show ?thesis using assms by (simp add: infer_size_def)
qed

text \<open>
  C8. For a weight tensor of shape \<open>[out_channels, in_channels, kh, kw]\<close> with at least one
  output channel and a kernel of positive height and width, \<^verbatim>\<open>_weights_conv2d_to_mat\<close>
  followed by \<^verbatim>\<open>_mat_to_weights_conv2d\<close> with the kernel size \<open>(kh, kw)\<close> returns a tensor
  of the same shape holding the same values, whether the library's \<^verbatim>\<open>reshape\<close> shares the
  storage or copies it. (With no output channel or an empty kernel torch cannot infer the
  dimension written \<^verbatim>\<open>-1\<close> and \<^verbatim>\<open>reshape\<close> fails.)
\<close>

theorem weights_roundtrip:
  assumes sh: "shape w = [out_channels, in_channels, kh, kw]"
    and wf: "length (offs w) = prod_list (shape w)"
    and pos: "0 < out_channels" "0 < kh" "0 < kw"
  shows "\<exists>w' h'. bindM (weights_conv2d_to_mat L w)
                    (\<lambda>m. mat_to_weights_conv2d L (Some m) [kh, kw]) h = (Inr (Some w'), h')
               \<and> shape w' = shape w \<and> get_val h' w' = get_val h w"
proof -
  let ?F = "in_channels * (kh * kw)"
  have "infer_size [Some out_channels, None] (prod_list (shape w)) = Inr [out_channels, ?F]"
    using infer_size_flatten [OF pos(1), of "?F"] by (simp add: sh)
  from reshape_ok [OF this, of L h] obtain m1 h1 where
    r1: "reshape L w [Some out_channels, None] h = (Inr m1, h1)"
    and m1: "shape m1 = [out_channels, ?F]" "elems (get_val h1 m1) = elems (get_val h w)"
      "length (offs m1) = length (offs w)"
    by blast
  have to_mat: "weights_conv2d_to_mat L w h = (Inr (T_view m1), h1)"
    by (simp add: weights_conv2d_to_mat_def run_simps shape_at_run sh r1)
  have "length (offs m1) = out_channels * ?F"
    using m1(3) wf by (simp add: sh)
  then have invol: "T_view (T_view m1) = m1"
    by (rule T_view_involution [OF m1(1)])
  have "infer_size [Some out_channels, None, Some kh, Some kw] (prod_list (shape m1)) =
          Inr [out_channels, in_channels, kh, kw]"
    using infer_size_kernel [OF pos, of in_channels] by (simp add: m1(1))
  from reshape_ok [OF this, of L h1] obtain w' h' where
    r2: "reshape L m1 [Some out_channels, None, Some kh, Some kw] h1 = (Inr w', h')"
    and w': "shape w' = [out_channels, in_channels, kh, kw]"
      "elems (get_val h' w') = elems (get_val h1 m1)"
    by blast
  have "mat_to_weights_conv2d L (Some (T_view m1)) [kh, kw] h1 = (Inr (Some w'), h')"
    by (simp add: mat_to_weights_conv2d_def Let_def invol run_simps shape_at_run m1(1) r2)
  moreover have "get_val h' w' = get_val h w"
    using w' m1(2) sh by (simp add: get_val_def)
  ultimately show ?thesis
    using to_mat w'(1) sh by (simp add: bindM_run)
qed

theorem weights_roundtrip_witness:
  "\<exists>w' h'. bindM (weights_conv2d_to_mat ref_lib ex_K)
              (\<lambda>m. mat_to_weights_conv2d ref_lib (Some m) [1, 2]) ex_hk = (Inr (Some w'), h')
         \<and> shape w' = [2, 1, 1, 2] \<and> get_val h' w' = \<lparr>dims = [2, 1, 1, 2], elems = [1, 2, 3, 4]\<rparr>"
proof -
  have sh: "shape ex_K = [2, 1, 1, 2]" by (simp add: ex_K_def)
  have wf: "length (offs ex_K) = prod_list (shape ex_K)" by (simp add: ex_K_def)
  have v: "get_val ex_hk ex_K = \<lparr>dims = [2, 1, 1, 2], elems = [1, 2, 3, 4]\<rparr>"
    by (simp add: get_val_def ex_K_def ex_hk_def)
  show ?thesis
    using weights_roundtrip [OF sh wf, of ref_lib ex_hk] by (simp add: sh v)
qed

section \<open>The caller's tensors are not written\<close>

lemma presI:
  assumes "\<And>h. n \<le> length h \<Longrightarrow> take n (snd (m h)) = take n h \<and> n \<le> length (snd (m h))"
    and "\<And>h x. n \<le> length h \<Longrightarrow> fst (m h) = Inr x \<Longrightarrow> Q x"
  shows "pres n m Q"
  using assms unfolding pres_def by blast

lemma pres_returnM: "Q x \<Longrightarrow> pres n (returnM x) Q"
  by (simp add: pres_def returnM_apply)

lemma pres_raiseM: "pres n (raiseM e) Q"
  by (simp add: pres_def raiseM_apply)

lemma pres_weaken: "pres n m Q \<Longrightarrow> (\<And>x. Q x \<Longrightarrow> R x) \<Longrightarrow> pres n m R"
  unfolding pres_def by blast

lemma pres_bindM:
  assumes m: "pres n m Q" and f: "\<And>x. Q x \<Longrightarrow> pres n (f x) R"
  shows "pres n (bindM m f) R"
  unfolding pres_def
proof (intro allI impI)
  fix h :: "'a store" assume n: "n \<le> length h"
  obtain r h' where mh: "m h = (r, h')" by (cases "m h")
  from m n mh have 1: "take n h' = take n h" "n \<le> length h'" "\<And>x. r = Inr x \<Longrightarrow> Q x"
    by (auto simp: pres_def)
  show "take n (snd (bindM m f h)) = take n h \<and> n \<le> length (snd (bindM m f h))
          \<and> (\<forall>y. fst (bindM m f h) = Inr y \<longrightarrow> R y)"
  proof (cases r)
    case (Inl e)
    then show ?thesis using mh 1 by (simp add: bindM_run)
  next
    case (Inr x)
    from f [OF 1(3) [OF Inr]] 1(2)
    have "take n (snd (f x h')) = take n h'" "n \<le> length (snd (f x h'))"
      "\<And>y. fst (f x h') = Inr y \<Longrightarrow> R y"
      by (auto simp: pres_def)
    then show ?thesis using mh Inr 1(1) by (simp add: bindM_run)
  qed
qed

lemma pres_liftE: "pres n (liftE r) (\<lambda>_. True)"
  by (cases r) (simp_all add: liftE_def pres_returnM pres_raiseM)

lemma pres_shape_at: "pres n (shape_at t i) (\<lambda>_. True)"
  by (simp add: shape_at_def pres_returnM pres_raiseM)

lemma pres_alloc: "pres n (alloc v) (\<lambda>t. n \<le> base t)"
  by (simp add: pres_def alloc_run)

lemma pres_lift1: "pres n (lift1 f t) (\<lambda>t. n \<le> base t)"
  by (simp add: pres_def lift1_run split: sum.split)

lemma pres_lift2: "pres n (lift2 f t u) (\<lambda>t. n \<le> base t)"
  by (simp add: pres_def lift2_run split: sum.split)

lemma pres_lib_alloc:
  "pres n (\<lambda>h. case g h of Inl e \<Rightarrow> (Inl e, h) | Inr v \<Rightarrow> alloc v h) (\<lambda>t. n \<le> base t)"
  by (simp add: pres_def alloc_run split: sum.split)

lemma pres_inplace2: "n \<le> base t \<Longrightarrow> pres n (inplace2 f t u) (\<lambda>t. n \<le> base t)"
  by (simp add: pres_def inplace2_def put_elems_def split: sum.split)

lemma pres_slice_rows: "n \<le> base t \<Longrightarrow> pres n (slice_rows t k) (\<lambda>t. n \<le> base t)"
  by (auto simp: slice_rows_def pres_returnM pres_raiseM split: list.split sum.split)

lemma pres_slice_cols: "n \<le> base t \<Longrightarrow> pres n (slice_cols t k) (\<lambda>t. n \<le> base t)"
  by (auto simp: slice_cols_def pres_returnM pres_raiseM split: list.split sum.split)

lemma pres_transpose12: "pres n (transpose12 t) (\<lambda>_. True)"
  by (simp add: transpose12_def pres_returnM pres_raiseM)

lemma pres_reshape: "pres n (reshape L t spec) (\<lambda>_. True)"
  by (simp add: reshape_def pres_def alloc_run run_simps split: sum.split)

lemma pres_lstsq: "pres n (lstsq L A B) (\<lambda>_. True)"
  unfolding lstsq_def
  by (intro pres_bindM [OF pres_shape_at])
     (auto intro: pres_raiseM pres_weaken [OF pres_lift2])

lemma pres_nmse_of: "pres n (nmse_of L Y Y_hat) (\<lambda>_. True)"
  unfolding nmse_of_def
  by (intro pres_bindM [OF pres_lift2] pres_bindM [OF pres_lift1] pres_weaken [OF pres_lift2]) simp

lemma pres_svd:
  "pres n (svd L W) (\<lambda>(U, s, Vt). n \<le> base U \<and> n \<le> base s \<and> n \<le> base Vt)"
  by (simp add: pres_def svd_def alloc_run run_simps split: sum.split prod.split)

lemma pres_svd_initialize: "pres n (svd_initialize L Wa0 Wb0 k) (\<lambda>_. True)"
  unfolding svd_initialize_def
  apply (rule pres_bindM [where Q = "\<lambda>_. True"])
   apply (cases Wb0; simp add: pres_returnM pres_weaken [OF pres_lift2])
  apply (rule pres_bindM [OF pres_svd])
  apply clarify
  apply (rule pres_bindM [OF pres_slice_cols], assumption)
  apply (rule pres_bindM [OF pres_slice_rows], assumption)
  apply (rule pres_bindM [OF pres_slice_rows], assumption)
  apply (rule pres_bindM [OF pres_lift1])
  apply (rule pres_bindM [OF pres_inplace2], assumption)
  apply (rule pres_bindM [OF pres_reshape])
  apply (rule pres_bindM [OF pres_inplace2], assumption)
  apply (rule pres_returnM)
  apply simp
  done

lemma pres_als_loop: "pres n (als_loop L X Y Ya j Wa1 Wb1) (\<lambda>_. True)"
proof (induction j arbitrary: Wa1 Wb1)
  case 0
  show ?case by (simp add: pres_returnM)
next
  case (Suc j)
  show ?case
    by (simp del: bindM_def)
       (intro pres_bindM [OF pres_lift2] pres_bindM [OF pres_lstsq] Suc.IH)
qed

lemma pres_finish: "pres n (finish L X Y original_bias k Wa2 Wb2) (\<lambda>_. True)"
  unfolding finish_def
  apply (rule pres_bindM [OF pres_lift2])
  apply (rule pres_bindM [OF pres_lift2])
  apply (rule pres_bindM [OF pres_lift2])
  apply (rule pres_bindM [OF pres_lift1])
  apply (rule pres_bindM [where Q = "\<lambda>t. n \<le> base t"])
   apply (cases original_bias; simp add: pres_returnM pres_inplace2)
  apply (rule pres_bindM [OF pres_inplace2], assumption)
  apply (rule pres_bindM [OF pres_nmse_of])
  apply (rule pres_returnM)
  apply simp
  done

lemma pres_resolve_rank: "pres n (resolve_rank L rank0 X Wa0) (\<lambda>_. True)"
  unfolding resolve_rank_def
  by (auto intro!: pres_bindM [OF pres_shape_at] pres_returnM)

lemma pres_factorize_matrix:
  "pres n (factorize_matrix L X Y Wa0 Wb0 bias0 rank0 n_iters) (\<lambda>_. True)"
  unfolding factorize_matrix_def Let_def
  apply (rule pres_bindM [OF pres_resolve_rank])
  apply (rule pres_bindM [where Q = "\<lambda>_. True"])
   apply (cases bias0; simp add: pres_returnM pres_weaken [OF pres_lift2])
  apply (rule pres_bindM [OF pres_shape_at])
  apply (rule pres_bindM [where Q = "\<lambda>_. True"])
   apply (auto intro!: pres_bindM [OF pres_shape_at] pres_returnM)[1]
  apply (simp only: split: if_split)
  apply (intro conjI impI)
   apply (rule pres_bindM [OF pres_lstsq])
   apply (rule pres_returnM, simp)
  apply (rule pres_bindM [OF pres_shape_at])
  apply (simp only: split: if_split)
  apply (intro conjI impI)
   apply (rule pres_returnM, simp)
  apply (rule pres_bindM [OF pres_svd_initialize])
  apply clarify
  apply (rule pres_bindM [OF pres_lstsq])
  apply (rule pres_bindM [OF pres_als_loop])
  apply clarify
  apply (rule pres_finish)
  done

lemma pres_if:
  assumes "c \<Longrightarrow> pres n a Q" and "\<not> c \<Longrightarrow> pres n b Q"
  shows "pres n (if c then a else b) Q"
  using assms by simp

lemma pres_case_prod:
  assumes "\<And>a b. pres n (f a b) Q"
  shows "pres n (case x of (a, b) \<Rightarrow> f a b) Q"
  using assms by (cases x) simp

lemma pres_activations:
  "pres n (activations_conv2d_to_mat L activations kernel_size kw) (\<lambda>_. True)"
  unfolding activations_conv2d_to_mat_def
  apply (rule pres_bindM [OF pres_liftE])
  apply (rule pres_if, rule pres_raiseM)
  apply (rule pres_bindM [OF pres_liftE])
  apply (rule pres_if, rule pres_raiseM)
  apply (rule pres_if, rule pres_raiseM)
  apply (rule pres_bindM [OF pres_liftE])
  apply (rule pres_bindM [where Q = "\<lambda>_. True"])
   apply (rule pres_if)
    apply (rule pres_bindM [OF pres_lib_alloc])
    apply (rule pres_returnM, simp)
   apply (rule pres_returnM, simp)
  apply (rule pres_case_prod)
  apply (rule pres_bindM [OF pres_lib_alloc])
  apply (rule pres_bindM [OF pres_transpose12])
  apply (rule pres_bindM [OF pres_shape_at])
  apply (rule pres_reshape)
  done

lemma pres_weights_conv2d_to_mat: "pres n (weights_conv2d_to_mat L weights) (\<lambda>_. True)"
  unfolding weights_conv2d_to_mat_def
  by (intro pres_bindM [OF pres_shape_at] pres_bindM [OF pres_reshape] pres_returnM TrueI)

lemma pres_mat_to_weights_conv2d: "pres n (mat_to_weights_conv2d L mat kernel_size) (\<lambda>_. True)"
  unfolding mat_to_weights_conv2d_def Let_def
  by (cases mat)
     (auto intro!: pres_bindM [OF pres_shape_at] pres_bindM [OF pres_reshape] pres_returnM)

lemma pres_factorize_conv2d:
  "pres n (factorize_conv2d L inputs Wa0 Wb0 rank0 biasA biasB n_iters kw) (\<lambda>_. True)"
  unfolding factorize_conv2d_def Let_def
  apply (rule pres_bindM [OF pres_activations])
  apply (rule pres_bindM [OF pres_weights_conv2d_to_mat])
  apply (rule pres_bindM [OF pres_lift2])
  apply (rule pres_bindM [where Q = "\<lambda>t. n \<le> base t"])
   apply (cases biasA; simp add: pres_returnM pres_inplace2)
  apply (rule pres_bindM [where Q = "\<lambda>_. True"])
   apply (cases Wb0)
    apply (cases biasB; simp add: pres_returnM pres_raiseM)
   apply simp
   apply (rule pres_bindM [OF pres_weights_conv2d_to_mat])
   apply (rule pres_bindM [OF pres_lift2])
   apply (rule pres_bindM [where Q = "\<lambda>t. n \<le> base t"])
    apply (cases biasB; simp add: pres_returnM pres_inplace2)
   apply (rule pres_returnM, simp)
  apply clarify
  apply (rule pres_bindM [OF pres_factorize_matrix])
  apply (rule pres_bindM [OF pres_mat_to_weights_conv2d])
  apply (rule pres_bindM [OF pres_mat_to_weights_conv2d])
  apply (rule pres_returnM, simp)
  done

lemma pres_prefix:
  assumes "pres (length h) m Q"
  shows "prefix h (snd (m h))"
proof -
  from assms have "take (length h) (snd (m h)) = h"
    by (simp add: pres_def)
  then show ?thesis
    by (metis take_is_prefix)
qed

text \<open>
  C7, as amended. Whatever the library computes and whether the call returns or fails, the
  store after a call of \<^verbatim>\<open>factorize_matrix\<close> or \<^verbatim>\<open>factorize_conv2d\<close> extends the store
  before it: every buffer the caller had holds the same values. All in-place operators of the
  source write to buffers allocated by the call.
\<close>

theorem inputs_never_written:
  "prefix h (snd (factorize_matrix L X Y Wa0 Wb0 bias0 rank0 n_iters h))
   \<and> prefix h (snd (factorize_conv2d L inputs Wa1 Wb1 rank1 biasA biasB n_iters1 kw h))"
  by (intro conjI pres_prefix [OF pres_factorize_matrix] pres_prefix [OF pres_factorize_conv2d])

theorem inputs_never_written_witness:
  "prefix ex_h (snd (factorize_matrix ref_lib ex_X ex_Y ex_W None (Some ex_bias) (PyInt 2) 3 ex_h))
   \<and> prefix ex_hc (snd (factorize_conv2d ref_lib ex_inputs ex_kernel None (PyInt 1) None None 3
                          default_kwargs ex_hc))"
  using inputs_never_written [of ex_h ref_lib ex_X ex_Y ex_W None "Some ex_bias" "PyInt 2" 3]
    inputs_never_written [of ex_hc ref_lib _ _ _ _ _ _ _ ex_inputs ex_kernel None "PyInt 1" None None 3
      default_kwargs]
  by blast

text \<open>
  C7 as stated fails in its second half: the second degenerate case returns the caller's own
  \<open>Wa\<close> and \<open>Wb\<close>, tensors on the caller's storage and not freshly allocated ones.
\<close>

theorem returned_tensors_alias_inputs:
  "fst (factorize_matrix ref_lib ex_X ex_Y ex_Wa (Some ex_Wb) None (PyInt 1) 3 ex_h) =
     Inr \<lparr>Wa = Some ex_Wa, Wb = Some ex_Wb, bias = None, rank = PyInt (- 1), nmse = NmseNum 0\<rparr>
   \<and> \<not> freshly_allocated ex_h
         \<lparr>Wa = Some ex_Wa, Wb = Some ex_Wb, bias = None, rank = PyInt (- 1), nmse = NmseNum 0\<rparr>"
  by code_simp


section \<open>The iterative path\<close>

subsection \<open>Results live in the store\<close>

lemma grows_returnM: "(\<And>l'. l \<le> l' \<Longrightarrow> Q x l') \<Longrightarrow> grows l (returnM x) Q"
  by (simp add: grows_def returnM_apply)

lemma grows_raiseM: "grows l (raiseM e) Q"
  by (simp add: grows_def raiseM_apply)

lemma grows_bindM:
  assumes m: "grows l m Q" and f: "\<And>x l'. l \<le> l' \<Longrightarrow> Q x l' \<Longrightarrow> grows l' (f x) R"
  shows "grows l (bindM m f) R"
  unfolding grows_def
proof (intro allI impI)
  fix h :: "'a store" and y h''
  assume l: "l \<le> length h" and run: "bindM m f h = (Inr y, h'')"
  obtain r h' where mh: "m h = (r, h')" by (cases "m h")
  with run obtain x where r: "r = Inr x" and fx: "f x h' = (Inr y, h'')"
    by (cases r) (auto simp: bindM_run)
  from m l mh r have 1: "length h \<le> length h'" "Q x (length h')"
    by (auto simp: grows_def)
  from f [of "length h'" x] l 1 have "grows (length h') (f x) R" by simp
  with fx have "length h' \<le> length h''" "R y (length h'')"
    by (auto simp: grows_def)
  with 1 show "length h \<le> length h'' \<and> R y (length h'')" by simp
qed

lemma grows_case_prod:
  assumes "\<And>a b. x = (a, b) \<Longrightarrow> grows l (f a b) Q"
  shows "grows l (case x of (a, b) \<Rightarrow> f a b) Q"
  using assms by (cases x) simp

lemma grows_lift1: "grows l (lift1 f t) (\<lambda>x l'. base x < l')"
  by (auto simp: grows_def lift1_run split: sum.splits)

lemma grows_lift2: "grows l (lift2 f t u) (\<lambda>x l'. base x < l')"
  by (auto simp: grows_def lift2_run split: sum.splits)

lemma grows_shape_at: "grows l (shape_at t i) (\<lambda>_ _. True)"
  by (auto simp: grows_def shape_at_run split: if_splits)

lemma grows_lstsq: "grows l (lstsq L A B) (\<lambda>x l'. base x < l')"
  by (auto simp: grows_def lstsq_def run_simps shape_at_run lift2_run split: if_splits sum.splits)

lemma grows_svd:
  "grows l (svd L W) (\<lambda>(U, s, Vt) l'. base U < l' \<and> base s < l' \<and> base Vt < l')"
  by (auto simp: grows_def svd_def alloc_run run_simps split: sum.splits prod.splits)

lemma grows_inplace2: "base t < l \<Longrightarrow> grows l (inplace2 f t u) (\<lambda>x l'. base x < l')"
  by (auto simp: grows_def inplace2_def put_elems_def split: sum.splits if_splits)

lemma grows_slice_rows: "base t < l \<Longrightarrow> grows l (slice_rows t k) (\<lambda>x l'. base x < l')"
  by (auto simp: grows_def slice_rows_def run_simps split: list.splits sum.splits)

lemma grows_slice_cols: "base t < l \<Longrightarrow> grows l (slice_cols t k) (\<lambda>x l'. base x < l')"
  by (auto simp: grows_def slice_cols_def run_simps split: list.splits sum.splits)

lemma grows_reshape: "base t < l \<Longrightarrow> grows l (reshape L t spec) (\<lambda>x l'. base x < l')"
  by (auto simp: grows_def reshape_def alloc_run run_simps split: sum.splits if_splits)

lemma grows_svd_initialize:
  "grows l (svd_initialize L Wa0 Wb0 k) (\<lambda>(a, b) l'. base a < l' \<and> base b < l')"
  unfolding svd_initialize_def
  apply (rule grows_bindM [where Q = "\<lambda>_ _. True"])
   apply (cases Wb0)
    apply (simp add: grows_returnM)
   apply (simp add: grows_def lift2_run split: sum.splits)
  apply (rule grows_bindM [OF grows_svd])
  apply (rule grows_case_prod)
  apply (rule grows_case_prod)
  apply (rule grows_bindM [OF grows_slice_cols], simp)
  apply (rule grows_bindM [OF grows_slice_rows], simp)
  apply (rule grows_bindM [OF grows_slice_rows], simp)
  apply (rule grows_bindM [OF grows_lift1])
  apply (rule grows_bindM [OF grows_inplace2], simp)
  apply (rule grows_bindM [OF grows_reshape], simp)
  apply (rule grows_bindM [OF grows_inplace2], simp)
  apply (rule grows_returnM)
  apply simp
  done

lemma grows_als_loop:
  "base wa < l \<Longrightarrow> base wb < l \<Longrightarrow>
     grows l (als_loop L X Y Ya j wa wb) (\<lambda>(a, b) l'. base a < l' \<and> base b < l')"
proof (induction j arbitrary: wa wb l)
  case 0
  then show ?case by (auto intro!: grows_returnM)
next
  case (Suc j)
  show ?case
    apply (simp del: bindM_def)
    apply (rule grows_bindM [OF grows_lift2])
    apply (rule grows_bindM [OF grows_lstsq])
    apply (rule grows_bindM [OF grows_lstsq])
    apply (rule Suc.IH)
     apply (simp_all add: T_view_def)
    done
qed

subsection \<open>The steps after the loop\<close>

lemma pres_get_val:
  assumes "pres n m Q" and "n \<le> length h" and "base t < n"
  shows "get_val (snd (m h)) t = get_val h t"
proof -
  from assms(1,2) have "take n (snd (m h)) = take n h"
    by (simp add: pres_def)
  then have "take n (snd (m h)) ! base t = take n h ! base t" by simp
  with assms(3) have "snd (m h) ! base t = h ! base t" by simp
  then show ?thesis by (simp add: get_val_def)
qed

lemma pres_length:
  assumes "pres n m Q" and "n \<le> length h"
  shows "n \<le> length (snd (m h))"
  using assms by (simp add: pres_def)

lemma length_put_elems [simp]: "length (put_elems t xs h) = length h"
  by (simp add: put_elems_def)

lemma get_val_put_other: "base t \<noteq> base u \<Longrightarrow> get_val (put_elems t xs h) u = get_val h u"
  by (simp add: put_elems_def get_val_def)

lemma fold_update_prefix:
  "length xs \<le> length buf \<Longrightarrow>
     fold (\<lambda>(i, x) b. b[i := x]) (zip [0..<length xs] xs) buf = xs @ drop (length xs) buf"
proof (induction xs rule: rev_induct)
  case Nil
  show ?case by simp
next
  case (snoc x xs)
  then have n: "length xs < length buf" by simp
  have "zip [0..<length (xs @ [x])] (xs @ [x]) = zip [0..<length xs] xs @ [(length xs, x)]"
    by simp
  then have "fold (\<lambda>(i, x) b. b[i := x]) (zip [0..<length (xs @ [x])] (xs @ [x])) buf =
               (xs @ drop (length xs) buf)[length xs := x]"
    using snoc by simp
  also have "\<dots> = xs @ (drop (length xs) buf)[0 := x]"
    by (simp add: list_update_append)
  also have "drop (length xs) buf = buf ! length xs # drop (Suc (length xs)) buf"
    using n by (simp add: Cons_nth_drop_Suc)
  finally show ?case by simp
qed

lemma fold_update_all:
  "length xs = length buf \<Longrightarrow> fold (\<lambda>(i, x) b. b[i := x]) (zip [0..<length buf] xs) buf = xs"
  using fold_update_prefix [of xs buf] by simp

lemma get_val_put_fresh:
  assumes "length xs = length (elems m)" and "h ! length g = elems m" and "length g < length h"
  shows "get_val (put_elems (fresh_tensor g m) xs h) (fresh_tensor g m) = \<lparr>dims = dims m, elems = xs\<rparr>"
proof -
  have "put_elems (fresh_tensor g m) xs h ! length g = xs"
    using assms by (simp add: put_elems_def fresh_tensor_def fold_update_all)
  then show ?thesis
    using assms(1) [symmetric] by (simp add: get_val_def fresh_tensor_def map_nth)
qed

lemma get_val_fresh_at: "h' ! length g = elems v \<Longrightarrow> get_val h' (fresh_tensor g v) = v"
  by (simp add: get_val_def fresh_tensor_def map_nth)

lemma bind_lift2E:
  assumes "bindM (lift2 f t u) g h = (Inr y, h')"
  obtains v where "f (get_val h t) (get_val h u) = Inr v"
    and "g (fresh_tensor h v) (h @ [elems v]) = (Inr y, h')"
  using assms by (auto simp: bindM_run lift2_run split: sum.splits)

lemma bind_lift1E:
  assumes "bindM (lift1 f t) g h = (Inr y, h')"
  obtains v where "f (get_val h t) = Inr v"
    and "g (fresh_tensor h v) (h @ [elems v]) = (Inr y, h')"
  using assms by (auto simp: bindM_run lift1_run split: sum.splits)

lemma bind_inplace2E:
  assumes "bindM (inplace2 f t u) g h = (Inr y, h')"
  obtains v where "f (get_val h t) (get_val h u) = Inr v" and "dims v = shape t"
    and "g t (put_elems t (elems v) h) = (Inr y, h')"
  using assms by (auto simp: bindM_run inplace2_def split: sum.splits if_splits)

lemma bindM_E:
  assumes "bindM m g h = (Inr y, h'')"
  obtains x h' where "m h = (Inr x, h')" and "g x h' = (Inr y, h'')"
  using assms by (auto simp: bindM_run split: sum.splits prod.splits)

lemma finish_result:
  fixes L :: "'a numlib"
  assumes run: "finish L X Y ob k wa wb h = (Inr sol, h')"
    and X: "base X < length h" and Y: "base Y < length h"
    and wa: "base wa < length h" and wb: "base wb < length h"
    and ob: "\<And>b. ob = Some b \<Longrightarrow> base b < length h"
    and wf_mean: "\<And>a v. t_mean0 L a = Inr v \<Longrightarrow> wf_val v"
    and wf_add: "\<And>a b v. t_add L a b = Inr v \<Longrightarrow> wf_val v"
  shows "\<exists>b e. sol = \<lparr>Wa = Some wa, Wb = Some wb, bias = Some b, rank = k, nmse = NmseTensor e\<rparr>
           \<and> get_val h' wa = get_val h wa \<and> get_val h' wb = get_val h wb
           \<and> mean_residual_plus_bias L (get_val h X) (get_val h wa) (get_val h wb) (get_val h Y)
                (map_option (get_val h) ob) = Inr (get_val h' b)"
proof -
  from run [unfolded finish_def] obtain xw where
    xw: "matmul L (get_val h X) (get_val h wa) = Inr xw" and
    r1: "bindM (lift2 (matmul L) (fresh_tensor h xw) wb) (\<lambda>Y_hat.
         bindM (lift2 (t_sub L) Y Y_hat) (\<lambda>resid.
         bindM (lift1 (t_mean0 L) resid) (\<lambda>b.
         bindM (case ob of None \<Rightarrow> returnM b | Some ob \<Rightarrow> inplace2 (t_add L) b ob) (\<lambda>b1.
         bindM (inplace2 (t_add L) Y_hat b1) (\<lambda>Y_hat1.
         bindM (nmse_of L Y Y_hat1) (\<lambda>e.
         returnM \<lparr>Wa = Some wa, Wb = Some wb, bias = Some b1, rank = k,
                  nmse = NmseTensor e\<rparr>)))))) (h @ [elems xw]) = (Inr sol, h')"
    by (rule bind_lift2E)
  let ?h1 = "h @ [elems xw]"
  from r1 obtain yh where
    yh0: "matmul L (get_val ?h1 (fresh_tensor h xw)) (get_val ?h1 wb) = Inr yh" and
    r2: "bindM (lift2 (t_sub L) Y (fresh_tensor ?h1 yh)) (\<lambda>resid.
         bindM (lift1 (t_mean0 L) resid) (\<lambda>b.
         bindM (case ob of None \<Rightarrow> returnM b | Some ob \<Rightarrow> inplace2 (t_add L) b ob) (\<lambda>b1.
         bindM (inplace2 (t_add L) (fresh_tensor ?h1 yh) b1) (\<lambda>Y_hat1.
         bindM (nmse_of L Y Y_hat1) (\<lambda>e.
         returnM \<lparr>Wa = Some wa, Wb = Some wb, bias = Some b1, rank = k,
                  nmse = NmseTensor e\<rparr>))))) (?h1 @ [elems yh]) = (Inr sol, h')"
    by (rule bind_lift2E)
  have yh: "matmul L xw (get_val h wb) = Inr yh"
    using yh0 wb by (simp add: get_val_fresh_at nth_append)
  let ?h2 = "?h1 @ [elems yh]" and ?Yh = "fresh_tensor ?h1 yh"
  from r2 obtain r where
    r0: "t_sub L (get_val ?h2 Y) (get_val ?h2 ?Yh) = Inr r" and
    r3: "bindM (lift1 (t_mean0 L) (fresh_tensor ?h2 r)) (\<lambda>b.
         bindM (case ob of None \<Rightarrow> returnM b | Some ob \<Rightarrow> inplace2 (t_add L) b ob) (\<lambda>b1.
         bindM (inplace2 (t_add L) ?Yh b1) (\<lambda>Y_hat1.
         bindM (nmse_of L Y Y_hat1) (\<lambda>e.
         returnM \<lparr>Wa = Some wa, Wb = Some wb, bias = Some b1, rank = k,
                  nmse = NmseTensor e\<rparr>)))) (?h2 @ [elems r]) = (Inr sol, h')"
    by (rule bind_lift2E)
  have r: "t_sub L (get_val h Y) yh = Inr r"
    using r0 Y by (simp add: get_val_fresh_at nth_append)
  let ?h3 = "?h2 @ [elems r]"
  from r3 obtain m where
    m0: "t_mean0 L (get_val ?h3 (fresh_tensor ?h2 r)) = Inr m" and
    r4: "bindM (case ob of None \<Rightarrow> returnM (fresh_tensor ?h3 m)
                | Some ob \<Rightarrow> inplace2 (t_add L) (fresh_tensor ?h3 m) ob) (\<lambda>b1.
         bindM (inplace2 (t_add L) ?Yh b1) (\<lambda>Y_hat1.
         bindM (nmse_of L Y Y_hat1) (\<lambda>e.
         returnM \<lparr>Wa = Some wa, Wb = Some wb, bias = Some b1, rank = k,
                  nmse = NmseTensor e\<rparr>))) (?h3 @ [elems m]) = (Inr sol, h')"
    by (rule bind_lift1E)
  have m: "t_mean0 L r = Inr m"
    using m0 by (simp add: get_val_fresh_at nth_append)
  let ?h4 = "?h3 @ [elems m]" and ?b = "fresh_tensor ?h3 m"
  from r4 obtain b1 h5 where
    s5: "(case ob of None \<Rightarrow> returnM ?b | Some ob \<Rightarrow> inplace2 (t_add L) ?b ob) ?h4 = (Inr b1, h5)" and
    r5: "bindM (inplace2 (t_add L) ?Yh b1) (\<lambda>Y_hat1.
         bindM (nmse_of L Y Y_hat1) (\<lambda>e.
         returnM \<lparr>Wa = Some wa, Wb = Some wb, bias = Some b1, rank = k,
                  nmse = NmseTensor e\<rparr>)) h5 = (Inr sol, h')"
    by (rule bindM_E)
  have b5: "b1 = ?b \<and> length h5 = length ?h4
            \<and> get_val h5 wa = get_val h wa \<and> get_val h5 wb = get_val h wb
            \<and> (case ob of None \<Rightarrow> Inr m | Some c \<Rightarrow> t_add L m (get_val h c)) = Inr (get_val h5 ?b)"
  proof (cases ob)
    case None
    with s5 wa wb show ?thesis by (auto simp: returnM_apply get_val_fresh_at nth_append)
  next
    case (Some c)
    with s5 obtain v where
      v0: "t_add L (get_val ?h4 ?b) (get_val ?h4 c) = Inr v" and dv: "dims v = shape ?b"
      and eq: "b1 = ?b" "h5 = put_elems ?b (elems v) ?h4"
      by (auto simp: inplace2_def split: sum.splits if_splits)
    have v: "t_add L m (get_val h c) = Inr v"
      using v0 ob [OF Some] by (simp add: get_val_fresh_at nth_append)
    have "wf_val v" "wf_val m"
      using wf_add [OF v] wf_mean [OF m] by simp_all
    with dv have len: "length (elems v) = length (elems m)"
      by (simp add: wf_val_def)
    have "get_val h5 ?b = \<lparr>dims = dims m, elems = elems v\<rparr>"
      unfolding eq by (rule get_val_put_fresh [OF len]) (simp_all add: nth_append)
    with dv have "get_val h5 ?b = v" by simp
    moreover have "get_val h5 wa = get_val h wa" "get_val h5 wb = get_val h wb"
      using wa wb unfolding eq by (simp_all add: get_val_put_other)
    ultimately show ?thesis
      using Some v eq by simp
  qed
  have r5': "bindM (inplace2 (t_add L) ?Yh ?b) (\<lambda>Y_hat1.
         bindM (nmse_of L Y Y_hat1) (\<lambda>e.
         returnM \<lparr>Wa = Some wa, Wb = Some wb, bias = Some ?b, rank = k,
                  nmse = NmseTensor e\<rparr>)) h5 = (Inr sol, h')"
    using r5 b5 by simp
  have "\<exists>v2 :: 'a tval. bindM (nmse_of L Y ?Yh) (\<lambda>e.
         returnM \<lparr>Wa = Some wa, Wb = Some wb, bias = Some ?b, rank = k,
                  nmse = NmseTensor e\<rparr>) (put_elems ?Yh (elems v2) h5) = (Inr sol, h')"
  proof (rule bind_inplace2E [OF r5'])
    fix v :: "'a tval"
    assume "bindM (nmse_of L Y ?Yh) (\<lambda>e.
         returnM \<lparr>Wa = Some wa, Wb = Some wb, bias = Some ?b, rank = k,
                  nmse = NmseTensor e\<rparr>) (put_elems ?Yh (elems v) h5) = (Inr sol, h')"
    then show ?thesis ..
  qed
  then obtain v2 :: "'a tval" where
    r6: "bindM (nmse_of L Y ?Yh) (\<lambda>e.
         returnM \<lparr>Wa = Some wa, Wb = Some wb, bias = Some ?b, rank = k,
                  nmse = NmseTensor e\<rparr>) (put_elems ?Yh (elems v2) h5) = (Inr sol, h')"
    ..
  let ?h6 = "put_elems ?Yh (elems v2) h5"
  from r6 obtain e where
    s7: "nmse_of L Y ?Yh ?h6 = (Inr e, h')" and
    sol: "sol = \<lparr>Wa = Some wa, Wb = Some wb, bias = Some ?b, rank = k, nmse = NmseTensor e\<rparr>"
    by (auto elim!: bindM_E simp: returnM_apply)
  have len6: "length ?h6 = length ?h4"
    using b5 by simp
  have keep: "get_val h' t = get_val ?h6 t" if "base t < length ?h6" for t
    using pres_get_val [where h = "?h6" and t = t and n = "length ?h6" and m = "nmse_of L Y ?Yh",
        OF pres_nmse_of] that s7 by simp
  have "get_val h' wa = get_val h wa" "get_val h' wb = get_val h wb"
    using keep [of wa] keep [of wb] wa wb b5 len6 by (simp_all add: get_val_put_other)
  moreover have "get_val h' ?b = get_val h5 ?b"
    using keep [of ?b] len6 by (simp add: get_val_put_other)
  moreover have "mean_residual_plus_bias L (get_val h X) (get_val h wa) (get_val h wb) (get_val h Y)
                   (map_option (get_val h) ob) = Inr (get_val h5 ?b)"
    using xw yh r m b5 by (cases ob) (simp_all add: mean_residual_plus_bias_def bindE_def)
  ultimately show ?thesis
    using sol by simp
qed

lemma pres_run_get_val:
  assumes "pres n m Q" and "m h = (r, h')" and "n \<le> length h" and "base t < n"
  shows "get_val h' t = get_val h t"
  using pres_get_val [OF assms(1,3,4)] assms(2) by simp

lemma grows_run:
  assumes "grows l m Q" and "m h = (Inr x, h')" and "l \<le> length h"
  shows "length h \<le> length h'" and "Q x (length h')"
  using assms by (auto simp: grows_def)

lemma shifted_base:
  "base Y < length h \<Longrightarrow> base (fst (shifted h Y bias0 y)) < length (snd (shifted h Y bias0 y))"
  by (cases bias0) (simp_all add: shifted_def)

lemma shifted_length: "length h \<le> length (snd (shifted h Y bias0 y))"
  by (cases bias0) (simp_all add: shifted_def)

text \<open>
  C10. Take a call that returns, with \<open>X\<close> of shape \<open>[N, D]\<close>, a target of shape \<open>[N, M]\<close> and
  a \<open>Wa\<close> of \<open>d\<close> columns, all living in the caller's store, and a library whose mean and sum
  return well-formed values. On the two degenerate paths the returned bias is the caller's:
  present exactly when one was supplied. On the iterative path (rank below \<open>D\<close>, \<open>M\<close> and \<open>d\<close>)
  the bias is present, also when none was supplied, and it holds the mean residual of the
  target against \<open>X @ Wa @ Wb\<close> for the returned \<open>Wa\<close> and \<open>Wb\<close>, plus the supplied bias.
\<close>

theorem returned_bias:
  fixes L :: "'a numlib"
  assumes run: "factorize_matrix L X Y Wa0 Wb0 bias0 rank0 n_iters h = (Inr sol, h')"
    and k: "fst (resolve_rank L rank0 X Wa0 h) = Inr k"
    and y: "target_minus_bias L h Y bias0 = Inr y"
    and X: "shape X = [N, D]" "base X < length h"
    and Y: "dims y = [N, M]" "base Y < length h"
    and W: "shape Wa0 = [D, d]"
    and b: "\<And>b. bias0 = Some b \<Longrightarrow> base b < length h"
    and wf_mean: "\<And>a v. t_mean0 L a = Inr v \<Longrightarrow> wf_val v"
    and wf_add: "\<And>a b v. t_add L a b = Inr v \<Longrightarrow> wf_val v"
  shows "(py_ge k D \<or> py_ge k M \<or> py_ge k d \<longrightarrow> bias sol = bias0)
       \<and> (\<not> py_ge k D \<and> \<not> py_ge k M \<and> \<not> py_ge k d \<longrightarrow>
            (\<exists>wa wb b. Wa sol = Some wa \<and> Wb sol = Some wb \<and> bias sol = Some b
               \<and> mean_residual_plus_bias L (get_val h X) (get_val h' wa) (get_val h' wb) y
                    (map_option (get_val h) bias0) = Inr (get_val h' b)))"
proof -
  let ?Y1 = "fst (shifted h Y bias0 y)" and ?h1 = "snd (shifted h Y bias0 y)"
  have "bias sol = bias0" if A: "py_ge k D \<or> py_ge k M"
  proof -
    have "factorize_matrix L X Y Wa0 Wb0 bias0 rank0 n_iters h =
            bindM (lstsq L X ?Y1)
              (\<lambda>W. returnM \<lparr>Wa = Some W, Wb = None, bias = bias0, rank = PyInt (- 1),
                             nmse = NmseNum 0\<rparr>) ?h1"
      using X Y A by (intro fm_case_A [OF k y]) auto
    with run show ?thesis
      by (auto simp: run_simps split: sum.splits prod.splits)
  qed
  moreover have "bias sol = bias0" if B: "\<not> py_ge k D" "\<not> py_ge k M" "py_ge k d"
    using run X Y W B by (auto simp: fm_case_B [OF k y])
  moreover have "\<exists>wa wb b. Wa sol = Some wa \<and> Wb sol = Some wb \<and> bias sol = Some b
      \<and> mean_residual_plus_bias L (get_val h X) (get_val h' wa) (get_val h' wb) y
           (map_option (get_val h) bias0) = Inr (get_val h' b)"
    if C: "\<not> py_ge k D" "\<not> py_ge k M" "\<not> py_ge k d"
  proof -
    have eq: "factorize_matrix L X Y Wa0 Wb0 bias0 rank0 n_iters h =
            bindM (svd_initialize L Wa0 Wb0 k) (\<lambda>(Wa2, Wb2).
            bindM (lstsq L X ?Y1) (\<lambda>Ya.
            bindM (als_loop L X ?Y1 Ya (nat n_iters) Wa2 Wb2) (\<lambda>(Wa3, Wb3).
            finish L X ?Y1 bias0 k Wa3 Wb3))) ?h1"
      using X Y W C by (intro fm_iterative [OF k y]) auto
    from run [unfolded eq] obtain p2 h2 where
      s2: "svd_initialize L Wa0 Wb0 k ?h1 = (Inr p2, h2)" and
      r2: "(case p2 of (Wa2, Wb2) \<Rightarrow>
            bindM (lstsq L X ?Y1) (\<lambda>Ya.
            bindM (als_loop L X ?Y1 Ya (nat n_iters) Wa2 Wb2) (\<lambda>(Wa3, Wb3).
            finish L X ?Y1 bias0 k Wa3 Wb3))) h2 = (Inr sol, h')"
      by (rule bindM_E)
    obtain wa2 wb2 where p2: "p2 = (wa2, wb2)" by (cases p2)
    from r2 [unfolded p2 prod.case] obtain Ya h3 where
      s3: "lstsq L X ?Y1 h2 = (Inr Ya, h3)" and
      r3: "bindM (als_loop L X ?Y1 Ya (nat n_iters) wa2 wb2) (\<lambda>(Wa3, Wb3).
            finish L X ?Y1 bias0 k Wa3 Wb3) h3 = (Inr sol, h')"
      by (rule bindM_E)
    from r3 obtain p4 h4 where
      s4: "als_loop L X ?Y1 Ya (nat n_iters) wa2 wb2 h3 = (Inr p4, h4)" and
      r4: "(case p4 of (Wa3, Wb3) \<Rightarrow> finish L X ?Y1 bias0 k Wa3 Wb3) h4 = (Inr sol, h')"
      by (rule bindM_E)
    obtain wa3 wb3 where p4: "p4 = (wa3, wb3)" by (cases p4)
    from r4 have fin: "finish L X ?Y1 bias0 k wa3 wb3 h4 = (Inr sol, h')"
      by (simp add: p4)
    have l01: "length h \<le> length ?h1" by (rule shifted_length)
    from grows_run [OF grows_svd_initialize s2 [unfolded p2] order_refl]
    have l12: "length ?h1 \<le> length h2" and v2: "base wa2 < length h2" "base wb2 < length h2"
      by simp_all
    from grows_run [OF grows_lstsq s3 order_refl]
    have l23: "length h2 \<le> length h3" by simp
    from grows_run [OF grows_als_loop s4 [unfolded p4] order_refl] v2 l23
    have l34: "length h3 \<le> length h4" and v4: "base wa3 < length h4" "base wb3 < length h4"
      by simp_all
    have old: "get_val h4 t = get_val ?h1 t" if "base t < length ?h1" for t
    proof -
      have "get_val h2 t = get_val ?h1 t"
        using pres_run_get_val [OF pres_svd_initialize s2 order_refl that] .
      moreover have "get_val h3 t = get_val h2 t"
        using pres_run_get_val [OF pres_lstsq s3 l12 that] .
      moreover have "get_val h4 t = get_val h3 t"
        using pres_run_get_val [OF pres_als_loop s4 _ that] l12 l23 by simp
      ultimately show ?thesis by simp
    qed
    have Y1: "base ?Y1 < length ?h1" using Y(2) by (rule shifted_base)
    have vX: "get_val h4 X = get_val h X"
      using old [of X] X(2) l01 by (simp add: shifted_old)
    have vY: "get_val h4 ?Y1 = y"
      using old [OF Y1] by (simp add: shifted_val [OF y])
    have vb: "map_option (get_val h4) bias0 = map_option (get_val h) bias0"
    proof (cases bias0)
      case None
      then show ?thesis by simp
    next
      case (Some c)
      from b [OF Some] have "base c < length h" .
      with old [of c] l01 show ?thesis by (simp add: Some shifted_old)
    qed
    have len4: "length h \<le> length h4" using l01 l12 l23 l34 by simp
    from finish_result [OF fin _ _ v4 _ wf_mean wf_add] X(2) Y1 b len4 l12 l23 l34
    obtain bb e where
      sol: "sol = \<lparr>Wa = Some wa3, Wb = Some wb3, bias = Some bb, rank = k, nmse = NmseTensor e\<rparr>"
      and keep: "get_val h' wa3 = get_val h4 wa3" "get_val h' wb3 = get_val h4 wb3"
      and mr: "mean_residual_plus_bias L (get_val h4 X) (get_val h4 wa3) (get_val h4 wb3)
                 (get_val h4 ?Y1) (map_option (get_val h4) bias0) = Inr (get_val h' bb)"
      by force
    show ?thesis
      using sol keep mr vX vY vb by simp
  qed
  ultimately show ?thesis by blast
qed

subsection \<open>An iterative run, step by step\<close>

lemma st_rank: "resolve_rank ref_lib (PyInt 1) ex_X ex_W it_h0 = (Inr (PyInt 1), it_h0)"
  by code_simp

lemma st_sub: "lift2 (t_sub ref_lib) ex_Y ex_bias it_h0 = (Inr (mat22 4), it_h1)"
  by code_simp

lemma st_svd: "svd_initialize ref_lib ex_W None (PyInt 1) it_h1 = (Inr (it_wa2, mat12 7), it_h2)"
  by code_simp

lemma st_lstsq: "lstsq ref_lib ex_X (mat22 4) it_h2 = (Inr (mat22 9), it_h3)"
  by code_simp

lemma st_loop:
  "als_loop ref_lib ex_X (mat22 4) (mat22 9) (Suc 0) it_wa2 (mat12 7) it_h3 =
     (Inr (mat21 12, mat12 11), it_h4)"
  by code_simp

lemma st_f1: "lift2 (matmul ref_lib) ex_X (mat21 12) it_h4 = (Inr (mat21 13), it_h5)"
  by code_simp

lemma st_f2: "lift2 (matmul ref_lib) (mat21 13) (mat12 11) it_h5 = (Inr (mat22 14), it_h6)"
  by code_simp

lemma st_f3: "lift2 (t_sub ref_lib) (mat22 4) (mat22 14) it_h6 = (Inr (mat22 15), it_h7)"
  by code_simp

lemma st_f4: "lift1 (t_mean0 ref_lib) (mat22 15) it_h7 = (Inr (vec2 16), it_h8)"
  by code_simp

lemma st_f5: "inplace2 (t_add ref_lib) (vec2 16) ex_bias it_h8 = (Inr (vec2 16), it_h9)"
  by code_simp

lemma st_f6: "inplace2 (t_add ref_lib) (mat22 14) (vec2 16) it_h9 = (Inr (mat22 14), it_h10)"
  by code_simp

lemma st_n1: "lift2 (t_sub ref_lib) (mat22 4) (mat22 14) it_h10 = (Inr (mat22 17), it_h11)"
  by code_simp

lemma st_n2: "lift2 (t_mul ref_lib) (mat22 17) (mat22 17) it_h11 = (Inr (mat22 18), it_h12)"
  by code_simp

lemma st_n3: "lift1 (t_mean ref_lib) (mat22 18) it_h12 = (Inr (scalar 19), it_h13)"
  by code_simp

lemma st_n4: "lift1 (t_var ref_lib) (mat22 4) it_h13 = (Inr (scalar 20), it_h14)"
  by code_simp

lemma st_n5: "lift2 (t_div ref_lib) (scalar 19) (scalar 20) it_h14 = (Inr (scalar 21), it_h15)"
  by code_simp

lemma it_shapes:
  "shape ex_X = [2, 2]" "shape ex_W = [2, 2]" "shape (mat22 a) = [2, 2]"
  by (simp_all add: ex_X_def ex_W_def mat22_def)

lemma it_run:
  "factorize_matrix ref_lib ex_X ex_Y ex_W None (Some ex_bias) (PyInt 1) 1 it_h0 =
     (Inr \<lparr>Wa = Some (mat21 12), Wb = Some (mat12 11), bias = Some (vec2 16), rank = PyInt 1,
           nmse = NmseTensor (scalar 21)\<rparr>, it_h15)"
  by (simp add: factorize_matrix_def finish_def nmse_of_def Let_def run_simps shape_at_run
        py_ge_def it_shapes st_rank st_sub st_svd st_lstsq st_loop st_f1 st_f2 st_f3 st_f4 st_f5
        st_f6 st_n1 st_n2 st_n3 st_n4 st_n5
      del: als_loop.simps)

lemma wf_ew: "ew f a b = Inr v \<Longrightarrow> wf_val v"
  by (auto simp: ew_def wf_val_def split: option.splits)

lemma wf_mean_dim0: "mean_dim0 a = Inr v \<Longrightarrow> wf_val v"
  by (auto simp: mean_dim0_def wf_val_def split: list.splits)

lemma it_vals:
  "get_val it_h0 ex_X = \<lparr>dims = [2, 2], elems = [0, 0, 0, 0]\<rparr>"
  "get_val it_h0 ex_Y = \<lparr>dims = [2, 2], elems = [1, 0, 0, 1]\<rparr>"
  "get_val it_h0 ex_bias = \<lparr>dims = [2], elems = [1, 1]\<rparr>"
  "get_val it_h15 (mat21 12) = \<lparr>dims = [2, 1], elems = [0, 0]\<rparr>"
  "get_val it_h15 (mat12 11) = \<lparr>dims = [1, 2], elems = [0, 0]\<rparr>"
  "get_val it_h15 (vec2 16) = \<lparr>dims = [2], elems = [1 / 2, 1 / 2]\<rparr>"
  "get_val it_h15 (scalar 21) = \<lparr>dims = [], elems = [15 / 4]\<rparr>"
  by code_simp+

lemma it_claimed:
  "matmul ref_lib \<lparr>dims = [2, 2], elems = [0, 0, 0, 0]\<rparr> \<lparr>dims = [2, 1], elems = [0, 0]\<rparr> =
     Inr \<lparr>dims = [2, 1], elems = [0, 0]\<rparr>"
  "matmul ref_lib \<lparr>dims = [2, 1], elems = [0, 0]\<rparr> \<lparr>dims = [1, 2], elems = [0, 0]\<rparr> =
     Inr \<lparr>dims = [2, 2], elems = [0, 0, 0, 0]\<rparr>"
  "t_add ref_lib \<lparr>dims = [2, 2], elems = [0, 0, 0, 0]\<rparr> \<lparr>dims = [2], elems = [1 / 2, 1 / 2]\<rparr> =
     Inr \<lparr>dims = [2, 2], elems = [1 / 2, 1 / 2, 1 / 2, 1 / 2]\<rparr>"
  "t_sub ref_lib \<lparr>dims = [2, 2], elems = [1, 0, 0, 1]\<rparr>
       \<lparr>dims = [2, 2], elems = [1 / 2, 1 / 2, 1 / 2, 1 / 2]\<rparr> =
     Inr \<lparr>dims = [2, 2], elems = [1 / 2, - (1 / 2), - (1 / 2), 1 / 2]\<rparr>"
  "t_mul ref_lib \<lparr>dims = [2, 2], elems = [1 / 2, - (1 / 2), - (1 / 2), 1 / 2]\<rparr>
       \<lparr>dims = [2, 2], elems = [1 / 2, - (1 / 2), - (1 / 2), 1 / 2]\<rparr> =
     Inr \<lparr>dims = [2, 2], elems = [1 / 4, 1 / 4, 1 / 4, 1 / 4]\<rparr>"
  "t_mean ref_lib \<lparr>dims = [2, 2], elems = [1 / 4, 1 / 4, 1 / 4, 1 / 4]\<rparr> =
     Inr \<lparr>dims = [], elems = [1 / 4]\<rparr>"
  "t_var ref_lib \<lparr>dims = [2, 2], elems = [1, 0, 0, 1]\<rparr> = Inr \<lparr>dims = [], elems = [1 / 3]\<rparr>"
  "t_div ref_lib \<lparr>dims = [], elems = [1 / 4]\<rparr> \<lparr>dims = [], elems = [1 / 3]\<rparr> =
     Inr \<lparr>dims = [], elems = [3 / 4]\<rparr>"
  by code_simp+

text \<open>
  C3 fails on the code when a bias is supplied. Line 150 replaces \<open>Y\<close> by \<open>Y - bias\<close>, and
  line 208 compares that shifted target with an approximation to which the caller's bias has
  been added back (lines 204 and 207): the residual is off by the bias. In the run above the
  code returns \<open>nmse = 15/4\<close>; the error of claim C3, for the returned \<open>Wa\<close>, \<open>Wb\<close> and bias
  against the caller's \<open>Y\<close>, is \<open>3/4\<close>.
\<close>

theorem nmse_against_shifted_target:
  "factorize_matrix ref_lib ex_X ex_Y ex_W None (Some ex_bias) (PyInt 1) 1 it_h0 =
     (Inr \<lparr>Wa = Some (mat21 12), Wb = Some (mat12 11), bias = Some (vec2 16), rank = PyInt 1,
           nmse = NmseTensor (scalar 21)\<rparr>, it_h15)
   \<and> get_val it_h15 (scalar 21) = \<lparr>dims = [], elems = [15 / 4]\<rparr>
   \<and> nmse_claimed ref_lib (get_val it_h0 ex_X) (get_val it_h15 (mat21 12))
         (get_val it_h15 (mat12 11)) (get_val it_h15 (vec2 16)) (get_val it_h0 ex_Y) =
       Inr \<lparr>dims = [], elems = [3 / 4]\<rparr>"
  unfolding it_run it_vals nmse_claimed_def bindE_def it_claimed sum.case by simp

theorem returned_bias_witness:
  "factorize_matrix ref_lib ex_X ex_Y ex_W None (Some ex_bias) (PyInt 1) 1 it_h0 =
     (Inr \<lparr>Wa = Some (mat21 12), Wb = Some (mat12 11), bias = Some (vec2 16), rank = PyInt 1,
           nmse = NmseTensor (scalar 21)\<rparr>, it_h15)
   \<and> mean_residual_plus_bias ref_lib (get_val it_h0 ex_X) (get_val it_h15 (mat21 12))
         (get_val it_h15 (mat12 11)) \<lparr>dims = [2, 2], elems = [0, - 1, - 1, 0]\<rparr>
         (Some (get_val it_h0 ex_bias)) = Inr (get_val it_h15 (vec2 16))"
proof -
  have k: "fst (resolve_rank ref_lib (PyInt 1) ex_X ex_W it_h0) = Inr (PyInt 1)"
    by (simp add: st_rank)
  have y: "target_minus_bias ref_lib it_h0 ex_Y (Some ex_bias) =
             Inr \<lparr>dims = [2, 2], elems = [0, - 1, - 1, 0]\<rparr>"
    by code_simp
  have X: "shape ex_X = [2, 2]" "base ex_X < length it_h0" by code_simp+
  have Y: "dims \<lparr>dims = [2, 2], elems = [0, - 1, - 1, 0 :: real]\<rparr> = [2, 2]"
    "base ex_Y < length it_h0" by code_simp+
  have W: "shape ex_W = [2, 2]" by code_simp
  have b: "base b < length it_h0" if "Some ex_bias = Some b" for b
    using that by (auto simp: ex_bias_def it_h0_def)
  have wm: "wf_val v" if "t_mean0 ref_lib a = Inr v" for a v
    using that by (simp add: ref_lib_def wf_mean_dim0)
  have wa: "wf_val v" if "t_add ref_lib a c = Inr v" for a c v
    using that by (simp add: ref_lib_def wf_ew)
  have C: "\<not> py_ge (PyInt 1) 2" by (simp add: py_ge_def)
  from returned_bias [OF it_run k y X Y W b wm wa] C
  show ?thesis by (simp add: it_run)
qed

end
